theory Spec2Isabelle
  imports Complex_Main
begin

section \<open>The pixel grid\<close>

text \<open>
  \<^verbatim>\<open>Image_Manipulator.py\<close> works on images of the Cimpl library through
  \<^verbatim>\<open>copy\<close>, \<^verbatim>\<open>get_width\<close>, \<^verbatim>\<open>get_height\<close>, \<^verbatim>\<open>get_color\<close>, \<^verbatim>\<open>set_color\<close>,
  \<^verbatim>\<open>create_color\<close> and the iteration \<^verbatim>\<open>for x, y, (r, g, b) in image\<close>. Cimpl itself is
  not part of the source file, so the grid follows the specification's data model: a
  rectangular array of RGB triples with a width and a height, bounds-checked reads and
  writes, and a row-major iteration order. A colour is a triple of Python integers; the
  pixels are kept in one row-major list.
\<close>

type_synonym color = "int \<times> int \<times> int"

record image =
  width :: int
  height :: int
  pixels :: "color list"

datatype error = IndexError

text \<open>A grid is well formed when it holds exactly one pixel per coordinate.\<close>

definition wf_image :: "image \<Rightarrow> bool" where
  "wf_image img \<longleftrightarrow>
     0 \<le> width img \<and> 0 \<le> height img \<and>
     length (pixels img) = nat (width img * height img)"

text \<open>Every channel of every pixel is an intensity between 0 and 255.\<close>

definition channel_ok :: "int \<Rightarrow> bool" where
  "channel_ok c \<longleftrightarrow> 0 \<le> c \<and> c \<le> 255"

definition color_ok :: "color \<Rightarrow> bool" where
  "color_ok col = (case col of (r, g, b) \<Rightarrow> channel_ok r \<and> channel_ok g \<and> channel_ok b)"

definition channels_ok :: "image \<Rightarrow> bool" where
  "channels_ok img = list_all color_ok (pixels img)"

text \<open>Modelled from the spec: Cimpl's \<^verbatim>\<open>get_width\<close> and \<^verbatim>\<open>get_height\<close>.\<close>

definition get_width :: "image \<Rightarrow> int" where
  "get_width img = width img"

definition get_height :: "image \<Rightarrow> int" where
  "get_height img = height img"

definition in_bounds :: "image \<Rightarrow> int \<Rightarrow> int \<Rightarrow> bool" where
  "in_bounds img x y \<longleftrightarrow>
     0 \<le> x \<and> x < get_width img \<and> 0 \<le> y \<and> y < get_height img"

definition offset :: "image \<Rightarrow> int \<Rightarrow> int \<Rightarrow> nat" where
  "offset img x y = nat (y * get_width img + x)"

definition pix :: "image \<Rightarrow> int \<Rightarrow> int \<Rightarrow> color" where
  "pix img x y = pixels img ! offset img x y"

text \<open>
  Modelled from the spec: Cimpl's \<^verbatim>\<open>get_color\<close> and \<^verbatim>\<open>set_color\<close>, the
  bounds-checked read and write of the pixel grid. A coordinate outside the grid is an
  error, never a read or write of some other cell.
\<close>

definition get_color :: "image \<Rightarrow> int \<Rightarrow> int \<Rightarrow> error + color" where
  "get_color img x y =
     (if in_bounds img x y then Inr (pix img x y) else Inl IndexError)"

definition set_color :: "image \<Rightarrow> int \<Rightarrow> int \<Rightarrow> color \<Rightarrow> error + image" where
  "set_color img x y col =
     (if in_bounds img x y
      then Inr (img\<lparr>pixels := (pixels img)[offset img x y := col]\<rparr>)
      else Inl IndexError)"

text \<open>
  Modelled from the spec: Cimpl's \<^verbatim>\<open>copy\<close>, a fresh grid with the contents of its
  argument. Grids are values here, so the copy is the grid itself and no filter can
  change its input.
\<close>

definition copy :: "image \<Rightarrow> image" where
  "copy img = img"

text \<open>
  Modelled from the spec: Cimpl's \<^verbatim>\<open>create_color\<close> on integer components. The
  specification's conversion to a channel takes the integer as it is and does not clamp.
\<close>

definition create_color :: "int \<Rightarrow> int \<Rightarrow> int \<Rightarrow> color" where
  "create_color red green blue = (red, green, blue)"

section \<open>Control flow\<close>

text \<open>An exception ends the computation: the rest runs only on a result.\<close>

definition and_then :: "error + 'a \<Rightarrow> ('a \<Rightarrow> error + 'b) \<Rightarrow> error + 'b" where
  "and_then r f = (case r of Inl e \<Rightarrow> Inl e | Inr v \<Rightarrow> f v)"

text \<open>A \<^verbatim>\<open>for\<close> loop over a finite sequence, threading the state it mutates.\<close>

fun for_each :: "('a \<Rightarrow> 's \<Rightarrow> error + 's) \<Rightarrow> 'a list \<Rightarrow> 's \<Rightarrow> error + 's" where
  "for_each body [] s = Inr s"
| "for_each body (a # as) s = and_then (body a s) (for_each body as)"

text \<open>Python's \<^verbatim>\<open>range(a, b)\<close>: the integers from \<open>a\<close> up to \<open>b - 1\<close>.\<close>

definition py_range :: "int \<Rightarrow> int \<Rightarrow> int list" where
  "py_range a b = [a..b - 1]"

text \<open>
  Modelled from the spec: the iteration \<^verbatim>\<open>for x, y, (r, g, b) in image\<close>, which
  produces the coordinates in row-major order, each with the colour found there when the
  iteration reaches it. The first argument gives the iterated image in terms of the loop
  state, because \<^verbatim>\<open>sepia_tint\<close> iterates over the image it is writing to.
\<close>

definition coords :: "image \<Rightarrow> (int \<times> int) list" where
  "coords img =
     concat (map (\<lambda>y. map (\<lambda>x. (x, y)) (py_range 0 (get_width img)))
                 (py_range 0 (get_height img)))"

definition for_pixels_of ::
  "('s \<Rightarrow> image) \<Rightarrow> (int \<Rightarrow> int \<Rightarrow> color \<Rightarrow> 's \<Rightarrow> error + 's) \<Rightarrow> 's \<Rightarrow> error + 's" where
  "for_pixels_of src body s0 =
     for_each (\<lambda>(x, y) s. and_then (get_color (src s) x y) (\<lambda>col. body x y col s))
       (coords (src s0)) s0"

section \<open>Python floats\<close>

text \<open>
  \<^verbatim>\<open>weighted_grayscale\<close> and \<^verbatim>\<open>sepia_tint\<close> compute with Python floats, which are
  IEEE 754 binary64 numbers. A float is kept as a mantissa and a binary exponent, standing
  for \<open>m * 2 ^ e\<close>; a product or a sum is formed exactly and then rounded to 53
  significant bits, to the nearest value and to the even mantissa on a tie. The exponent
  is not bounded: the model is exact for as long as no result leaves the range of the
  normal binary64 numbers, which no computation on channel values does.
\<close>

datatype pyfloat = PyFloat int int

text \<open>The number of binary digits of a positive integer.\<close>

function bit_length :: "int \<Rightarrow> nat" where
  "bit_length n = (if n \<le> 0 then 0 else Suc (bit_length (n div 2)))"
  by pat_completeness auto
termination
  by (relation "measure nat") auto

declare bit_length.simps [simp del]

definition round_to_double :: "int \<Rightarrow> int \<Rightarrow> pyfloat" where
  "round_to_double m e =
     (let n = bit_length \<bar>m\<bar> in
      if n \<le> 53 then PyFloat m e
      else
        let s = n - 53;
            q = m div 2 ^ s;
            r = m mod 2 ^ s;
            half = 2 ^ (s - 1)
        in PyFloat (if r > half \<or> (r = half \<and> odd q) then q + 1 else q) (e + int s))"

text \<open>\<^verbatim>\<open>float(i)\<close>, the conversion Python applies to the integer operand of a mixed product.\<close>

definition float_of_int :: "int \<Rightarrow> pyfloat" where
  "float_of_int i = round_to_double i 0"

fun fmul :: "pyfloat \<Rightarrow> pyfloat \<Rightarrow> pyfloat" where
  "fmul (PyFloat m1 e1) (PyFloat m2 e2) = round_to_double (m1 * m2) (e1 + e2)"

fun fadd :: "pyfloat \<Rightarrow> pyfloat \<Rightarrow> pyfloat" where
  "fadd (PyFloat m1 e1) (PyFloat m2 e2) =
     (let e = min e1 e2
      in round_to_double (m1 * 2 ^ nat (e1 - e) + m2 * 2 ^ nat (e2 - e)) e)"

text \<open>\<^verbatim>\<open>int(f)\<close>: truncation toward zero, which \<^verbatim>\<open>create_color\<close> applies to a float.\<close>

fun py_int :: "pyfloat \<Rightarrow> int" where
  "py_int (PyFloat m e) =
     (if 0 \<le> e then m * 2 ^ nat e else sgn m * (\<bar>m\<bar> div 2 ^ nat (- e)))"

text \<open>The float literals of the source, each the binary64 number nearest to the decimal.\<close>

definition f_0_299 :: pyfloat where "f_0_299 = PyFloat 5386305154335113 (- 54)"
definition f_0_587 :: pyfloat where "f_0_587 = PyFloat 5287225962532962 (- 53)"
definition f_0_114 :: pyfloat where "f_0_114 = PyFloat 8214565720323785 (- 56)"
definition f_0_9 :: pyfloat where "f_0_9 = PyFloat 8106479329266893 (- 53)"
definition f_1_1 :: pyfloat where "f_1_1 = PyFloat 4953959590107546 (- 52)"
definition f_0_85 :: pyfloat where "f_0_85 = PyFloat 7656119366529843 (- 53)"
definition f_1_15 :: pyfloat where "f_1_15 = PyFloat 5179139571476070 (- 52)"
definition f_0_93 :: pyfloat where "f_0_93 = PyFloat 8376695306909123 (- 53)"
definition f_1_08 :: pyfloat where "f_1_08 = PyFloat 4863887597560136 (- 52)"

text \<open>\<^verbatim>\<open>i * c\<close> for an integer \<open>i\<close> and a float \<open>c\<close>.\<close>

definition int_times :: "int \<Rightarrow> pyfloat \<Rightarrow> pyfloat" where
  "int_times i c = fmul (float_of_int i) c"

section \<open>The filters\<close>

definition grayscale :: "image \<Rightarrow> error + image" where
  "grayscale img =
     (let new_image = copy img in
      for_pixels_of (\<lambda>_. img) (\<lambda>x y (r, g, b) new_image.
        let brightness = (r + g + b) div 3;
            gray = create_color brightness brightness brightness
        in set_color new_image x y gray) new_image)"

definition negative :: "image \<Rightarrow> error + image" where
  "negative img =
     (let new_image = copy img in
      for_pixels_of (\<lambda>_. img) (\<lambda>x y (r, g, b) new_image.
        let inverted = create_color (255 - r) (255 - g) (255 - b)
        in set_color new_image x y inverted) new_image)"

definition solarize :: "image \<Rightarrow> int \<Rightarrow> error + image" where
  "solarize img threshold =
     (let new_image = copy img in
      for_pixels_of (\<lambda>_. img) (\<lambda>x y (red, green, blue) new_image.
        let red = (if red < threshold then 255 - red else red);
            green = (if green < threshold then 255 - green else green);
            blue = (if blue < threshold then 255 - blue else blue);
            col = create_color red green blue
        in set_color new_image x y col) new_image)"

definition black_and_white :: "image \<Rightarrow> error + image" where
  "black_and_white img =
     (let new_image = copy img;
          black = create_color 0 0 0;
          white = create_color 255 255 255
      in for_pixels_of (\<lambda>_. img) (\<lambda>x y (red, green, blue) new_image.
        let brightness = (red + green + blue) div 3
        in if brightness < 128 then set_color new_image x y black
           else set_color new_image x y white) new_image)"

definition black_and_white_and_gray :: "image \<Rightarrow> error + image" where
  "black_and_white_and_gray img =
     (let new_image = copy img;
          black = create_color 0 0 0;
          gray = create_color 128 128 128;
          white = create_color 255 255 255
      in for_pixels_of (\<lambda>_. img) (\<lambda>x y (red, green, blue) new_image.
        let brightness = (red + green + blue) div 3
        in if brightness < 85 then set_color new_image x y black
           else if brightness < 171 then set_color new_image x y gray
           else set_color new_image x y white) new_image)"

text \<open>
  \<^verbatim>\<open>brightness = r * 0.299 + g * 0.587 + b * 0.114\<close> is a float; \<^verbatim>\<open>create_color\<close>
  converts each float argument to an integer.
\<close>

definition weighted_grayscale :: "image \<Rightarrow> error + image" where
  "weighted_grayscale img =
     (let new_image = copy img in
      for_pixels_of (\<lambda>_. img) (\<lambda>x y (r, g, b) new_image.
        let brightness =
              fadd (fadd (int_times r f_0_299) (int_times g f_0_587)) (int_times b f_0_114);
            gray = create_color (py_int brightness) (py_int brightness) (py_int brightness)
        in set_color new_image x y gray) new_image)"

definition extreme_contrast :: "image \<Rightarrow> error + image" where
  "extreme_contrast img =
     (let new_image = copy img in
      for_pixels_of (\<lambda>_. img) (\<lambda>x y (r, g, b) new_image.
        let r = (if r < 128 then 0 else 255);
            g = (if g < 128 then 0 else 255);
            b = (if b < 128 then 0 else 255);
            new_col = create_color r g b
        in set_color new_image x y new_col) new_image)"

text \<open>
  \<^verbatim>\<open>sepia_tint\<close> iterates over \<^verbatim>\<open>new_image\<close>, the image it writes to. The colour it
  reads is an integer triple; \<open>r\<close> and \<open>b\<close> become floats and are converted back by
  \<^verbatim>\<open>create_color\<close>, \<open>g\<close> stays the integer it was.
\<close>

definition sepia_tint :: "image \<Rightarrow> error + image" where
  "sepia_tint img =
     and_then (weighted_grayscale img) (\<lambda>gray_image.
       let new_image = copy gray_image in
       for_pixels_of (\<lambda>new_image. new_image) (\<lambda>x y (r, g, b) new_image.
         let (b', r') =
               (if r < 63 then (int_times b f_0_9, int_times r f_1_1)
                else if r < 191 then (int_times b f_0_85, int_times r f_1_15)
                else (int_times b f_0_93, int_times r f_1_08));
             new_col = create_color (py_int r') g (py_int b')
         in set_color new_image x y new_col) new_image)"

definition adjust_component :: "int \<Rightarrow> int" where
  "adjust_component amount =
     (if amount < 64 then 31
      else if amount < 128 then 95
      else if amount < 192 then 159
      else 223)"

definition posterize :: "image \<Rightarrow> error + image" where
  "posterize img =
     (let new_image = copy img in
      for_pixels_of (\<lambda>_. img) (\<lambda>x y (r, g, b) new_image.
        let r = adjust_component r;
            g = adjust_component g;
            b = adjust_component b;
            new_col = create_color r g b
        in set_color new_image x y new_col) new_image)"

text \<open>
  The thresholds of the edge detectors are documented as floats and compared with an
  integer contrast; Python compares the two by value, so a threshold is a rational here.
\<close>

definition detect_edges :: "image \<Rightarrow> rat \<Rightarrow> error + image" where
  "detect_edges img threshold =
     (let new_image = copy img in
      for_each (\<lambda>y new_image.
        for_each (\<lambda>x new_image.
          and_then (get_color img x y) (\<lambda>(pixel_red, pixel_green, pixel_blue).
          and_then (get_color img x (y + 1))
            (\<lambda>(pixelbelow_red, pixelbelow_green, pixelbelow_blue).
            let contrast_check =
                  ((pixel_red + pixel_green + pixel_blue) div 3)
                  - ((pixelbelow_red + pixelbelow_green + pixelbelow_blue) div 3)
            in if of_int contrast_check < threshold
               then set_color new_image x y (create_color 255 255 255)
               else set_color new_image x y (create_color 0 0 0))))
          (py_range 1 (get_width img - 1)) new_image)
        (py_range 1 (get_height img - 1)) new_image)"

definition detect_edges_better :: "image \<Rightarrow> rat \<Rightarrow> error + image" where
  "detect_edges_better img threshold =
     (let new_image = copy img in
      for_each (\<lambda>y new_image.
        for_each (\<lambda>x new_image.
          and_then (get_color img x y) (\<lambda>(pixel_red, pixel_green, pixel_blue).
          and_then (get_color img x (y + 1))
            (\<lambda>(pixelbelow_red, pixelbelow_green, pixelbelow_blue).
          and_then (get_color img (x + 1) y)
            (\<lambda>(pixelright_red, pixelright_green, pixelright_blue).
            let contrast_check_below =
                  ((pixel_red + pixel_green + pixel_blue) div 3)
                  - ((pixelbelow_red + pixelbelow_green + pixelbelow_blue) div 3);
                contrast_check_right =
                  ((pixel_red + pixel_green + pixel_blue) div 3)
                  - ((pixelright_red + pixelright_green + pixelright_blue) div 3)
            in if of_int contrast_check_below > threshold
                  \<or> of_int contrast_check_right > threshold
               then set_color new_image x y (create_color 0 0 0)
               else set_color new_image x y (create_color 255 255 255)))))
          (py_range 1 (get_width img - 1)) new_image)
        (py_range 1 (get_height img - 1)) new_image)"

definition blur_better :: "image \<Rightarrow> error + image" where
  "blur_better img =
     (let target = copy img in
      for_each (\<lambda>y target.
        for_each (\<lambda>x target.
          and_then (get_color img x (y - 1)) (\<lambda>(top_red, top_green, top_blue).
          and_then (get_color img (x - 1) y) (\<lambda>(left_red, left_green, left_blue).
          and_then (get_color img x (y + 1)) (\<lambda>(bottom_red, bottom_green, bottom_blue).
          and_then (get_color img (x + 1) y) (\<lambda>(right_red, right_green, right_blue).
          and_then (get_color img x y) (\<lambda>(center_red, center_green, center_blue).
          and_then (get_color img (x + 1) (y - 1))
            (\<lambda>(diagonaltopright_red, diagonaltopright_green, diagonaltopright_blue).
          and_then (get_color img (x - 1) (y - 1))
            (\<lambda>(diagonaltopleft_red, diagonaltopleft_green, diagonaltopleft_blue).
          and_then (get_color img (x + 1) (y + 1))
            (\<lambda>(diagonalbottomright_red, diagonalbottomright_green, diagonalbottomright_blue).
          and_then (get_color img (x - 1) (y + 1))
            (\<lambda>(diagonalbottomleft_red, diagonalbottomleft_green, diagonalbottomleft_blue).
            let new_red = (top_red + left_red + bottom_red + right_red + center_red
                  + diagonaltopright_red + diagonaltopleft_red + diagonalbottomright_red
                  + diagonalbottomleft_red) div 9;
                new_green = (top_green + left_green + bottom_green + right_green
                  + center_green + diagonaltopright_green + diagonaltopleft_green
                  + diagonalbottomright_green + diagonalbottomleft_green) div 9;
                new_blue = (top_blue + left_blue + bottom_blue + right_blue + center_blue
                  + diagonaltopright_blue + diagonaltopleft_blue + diagonalbottomright_blue
                  + diagonalbottomleft_blue) div 9;
                new_color = create_color new_red new_green new_blue
            in set_color target x y new_color))))))))))
          (py_range 1 (get_width img - 1)) target)
        (py_range 1 (get_height img - 1)) target)"

definition flip_vertical :: "image \<Rightarrow> error + image" where
  "flip_vertical img =
     (let new_image = copy img in
      for_each (\<lambda>y new_image.
        for_each (\<lambda>x new_image.
          and_then (get_color img x y) (\<lambda>col.
            set_color new_image (get_width img - (x + 1)) y col))
          (py_range 1 (get_width img - 1)) new_image)
        (py_range 1 (get_height img - 1)) new_image)"

definition flip_horizontal :: "image \<Rightarrow> error + image" where
  "flip_horizontal img =
     (let new_image = copy img in
      for_each (\<lambda>y new_image.
        for_each (\<lambda>x new_image.
          and_then (get_color img x y) (\<lambda>col.
            set_color new_image x (get_height img - (y + 1)) col))
          (py_range 1 (get_width img - 1)) new_image)
        (py_range 1 (get_height img - 1)) new_image)"

section \<open>What each filter writes\<close>

text \<open>
  The colour a point filter stores for a pixel of colour \<open>(r, g, b)\<close>: the body of its
  loop, without the write.
\<close>

definition grayscale_pixel :: "color \<Rightarrow> color" where
  "grayscale_pixel col =
     (case col of (r, g, b) \<Rightarrow>
        let brightness = (r + g + b) div 3
        in create_color brightness brightness brightness)"

definition negative_pixel :: "color \<Rightarrow> color" where
  "negative_pixel col = (case col of (r, g, b) \<Rightarrow> create_color (255 - r) (255 - g) (255 - b))"

definition solarize_pixel :: "int \<Rightarrow> color \<Rightarrow> color" where
  "solarize_pixel threshold col =
     (case col of (red, green, blue) \<Rightarrow>
        create_color (if red < threshold then 255 - red else red)
                     (if green < threshold then 255 - green else green)
                     (if blue < threshold then 255 - blue else blue))"

definition black_and_white_pixel :: "color \<Rightarrow> color" where
  "black_and_white_pixel col =
     (case col of (red, green, blue) \<Rightarrow>
        let brightness = (red + green + blue) div 3
        in if brightness < 128 then create_color 0 0 0 else create_color 255 255 255)"

definition black_and_white_and_gray_pixel :: "color \<Rightarrow> color" where
  "black_and_white_and_gray_pixel col =
     (case col of (red, green, blue) \<Rightarrow>
        let brightness = (red + green + blue) div 3
        in if brightness < 85 then create_color 0 0 0
           else if brightness < 171 then create_color 128 128 128
           else create_color 255 255 255)"

definition weighted_grayscale_pixel :: "color \<Rightarrow> color" where
  "weighted_grayscale_pixel col =
     (case col of (r, g, b) \<Rightarrow>
        let brightness =
              fadd (fadd (int_times r f_0_299) (int_times g f_0_587)) (int_times b f_0_114)
        in create_color (py_int brightness) (py_int brightness) (py_int brightness))"

definition extreme_contrast_pixel :: "color \<Rightarrow> color" where
  "extreme_contrast_pixel col =
     (case col of (r, g, b) \<Rightarrow>
        create_color (if r < 128 then 0 else 255)
                     (if g < 128 then 0 else 255)
                     (if b < 128 then 0 else 255))"

text \<open>The second pass of \<^verbatim>\<open>sepia_tint\<close>, on a pixel of the grayscale image.\<close>

definition sepia_pixel :: "color \<Rightarrow> color" where
  "sepia_pixel col =
     (case col of (r, g, b) \<Rightarrow>
        let (b', r') =
              (if r < 63 then (int_times b f_0_9, int_times r f_1_1)
               else if r < 191 then (int_times b f_0_85, int_times r f_1_15)
               else (int_times b f_0_93, int_times r f_1_08))
        in create_color (py_int r') g (py_int b'))"

definition posterize_pixel :: "color \<Rightarrow> color" where
  "posterize_pixel col =
     (case col of (r, g, b) \<Rightarrow>
        create_color (adjust_component r) (adjust_component g) (adjust_component b))"

text \<open>
  The coordinates the neighbourhood and the geometric filters visit:
  \<^verbatim>\<open>for y in range(1, get_height(image) - 1): for x in range(1, get_width(image) - 1)\<close>.
\<close>

definition interior :: "image \<Rightarrow> (int \<times> int) list" where
  "interior img =
     concat (map (\<lambda>y. map (\<lambda>x. (x, y)) (py_range 1 (get_width img - 1)))
                 (py_range 1 (get_height img - 1)))"

text \<open>The colour a neighbourhood filter stores at \<open>(x, y)\<close>, read from the input image.\<close>

definition detect_edges_pixel :: "image \<Rightarrow> rat \<Rightarrow> int \<Rightarrow> int \<Rightarrow> color" where
  "detect_edges_pixel img threshold x y =
     (case pix img x y of (pixel_red, pixel_green, pixel_blue) \<Rightarrow>
      case pix img x (y + 1) of (pixelbelow_red, pixelbelow_green, pixelbelow_blue) \<Rightarrow>
        let contrast_check =
              ((pixel_red + pixel_green + pixel_blue) div 3)
              - ((pixelbelow_red + pixelbelow_green + pixelbelow_blue) div 3)
        in if of_int contrast_check < threshold
           then create_color 255 255 255
           else create_color 0 0 0)"

definition detect_edges_better_pixel :: "image \<Rightarrow> rat \<Rightarrow> int \<Rightarrow> int \<Rightarrow> color" where
  "detect_edges_better_pixel img threshold x y =
     (case pix img x y of (pixel_red, pixel_green, pixel_blue) \<Rightarrow>
      case pix img x (y + 1) of (pixelbelow_red, pixelbelow_green, pixelbelow_blue) \<Rightarrow>
      case pix img (x + 1) y of (pixelright_red, pixelright_green, pixelright_blue) \<Rightarrow>
        let contrast_check_below =
              ((pixel_red + pixel_green + pixel_blue) div 3)
              - ((pixelbelow_red + pixelbelow_green + pixelbelow_blue) div 3);
            contrast_check_right =
              ((pixel_red + pixel_green + pixel_blue) div 3)
              - ((pixelright_red + pixelright_green + pixelright_blue) div 3)
        in if of_int contrast_check_below > threshold
              \<or> of_int contrast_check_right > threshold
           then create_color 0 0 0
           else create_color 255 255 255)"

definition blur_better_pixel :: "image \<Rightarrow> int \<Rightarrow> int \<Rightarrow> color" where
  "blur_better_pixel img x y =
     (case pix img x (y - 1) of (top_red, top_green, top_blue) \<Rightarrow>
      case pix img (x - 1) y of (left_red, left_green, left_blue) \<Rightarrow>
      case pix img x (y + 1) of (bottom_red, bottom_green, bottom_blue) \<Rightarrow>
      case pix img (x + 1) y of (right_red, right_green, right_blue) \<Rightarrow>
      case pix img x y of (center_red, center_green, center_blue) \<Rightarrow>
      case pix img (x + 1) (y - 1) of
        (diagonaltopright_red, diagonaltopright_green, diagonaltopright_blue) \<Rightarrow>
      case pix img (x - 1) (y - 1) of
        (diagonaltopleft_red, diagonaltopleft_green, diagonaltopleft_blue) \<Rightarrow>
      case pix img (x + 1) (y + 1) of
        (diagonalbottomright_red, diagonalbottomright_green, diagonalbottomright_blue) \<Rightarrow>
      case pix img (x - 1) (y + 1) of
        (diagonalbottomleft_red, diagonalbottomleft_green, diagonalbottomleft_blue) \<Rightarrow>
        create_color
          ((top_red + left_red + bottom_red + right_red + center_red
             + diagonaltopright_red + diagonaltopleft_red + diagonalbottomright_red
             + diagonalbottomleft_red) div 9)
          ((top_green + left_green + bottom_green + right_green + center_green
             + diagonaltopright_green + diagonaltopleft_green + diagonalbottomright_green
             + diagonalbottomleft_green) div 9)
          ((top_blue + left_blue + bottom_blue + right_blue + center_blue
             + diagonaltopright_blue + diagonaltopleft_blue + diagonalbottomright_blue
             + diagonalbottomleft_blue) div 9))"

section \<open>The vocabulary of the specification\<close>

text \<open>The floor average of the three channels.\<close>

definition brightness :: "color \<Rightarrow> int" where
  "brightness col = (case col of (r, g, b) \<Rightarrow> (r + g + b) div 3)"

definition red :: "color \<Rightarrow> int" where "red col = fst col"
definition green :: "color \<Rightarrow> int" where "green col = fst (snd col)"
definition blue :: "color \<Rightarrow> int" where "blue col = snd (snd col)"

text \<open>An interior pixel is one that is not on the outermost one-pixel border.\<close>

definition is_interior :: "image \<Rightarrow> int \<Rightarrow> int \<Rightarrow> bool" where
  "is_interior img x y \<longleftrightarrow>
     1 \<le> x \<and> x < get_width img - 1 \<and> 1 \<le> y \<and> y < get_height img - 1"

definition on_border :: "image \<Rightarrow> int \<Rightarrow> int \<Rightarrow> bool" where
  "on_border img x y \<longleftrightarrow>
     in_bounds img x y \<and>
     (x = 0 \<or> x = get_width img - 1 \<or> y = 0 \<or> y = get_height img - 1)"

text \<open>The sum of one channel over the pixel at \<open>(x, y)\<close> and its eight neighbours.\<close>

definition window_sum :: "image \<Rightarrow> (color \<Rightarrow> int) \<Rightarrow> int \<Rightarrow> int \<Rightarrow> int" where
  "window_sum img channel x y =
     sum_list (map (\<lambda>(dx, dy). channel (pix img (x + dx) (y + dy)))
       [(- 1, - 1), (0, - 1), (1, - 1), (- 1, 0), (0, 0), (1, 0), (- 1, 1), (0, 1), (1, 1)])"

text \<open>
  The gray value of a colour: the weighted luminance \<open>0.299 r + 0.587 g + 0.114 b\<close>,
  computed in floats and truncated to an integer.
\<close>

definition gray_value :: "color \<Rightarrow> int" where
  "gray_value col =
     (case col of (r, g, b) \<Rightarrow>
        py_int (fadd (fadd (int_times r f_0_299) (int_times g f_0_587)) (int_times b f_0_114)))"

text \<open>
  The sepia tone of a gray value \<open>v\<close>, as the specification words it: red and blue are
  \<open>v\<close> scaled by the factors of the band \<open>v\<close> falls in and truncated, green is \<open>v\<close>;
  nothing is clamped.
\<close>

definition sepia_of_gray :: "int \<Rightarrow> color" where
  "sepia_of_gray v =
     (if v < 63 then (py_int (int_times v f_1_1), v, py_int (int_times v f_0_9))
      else if v < 191 then (py_int (int_times v f_1_15), v, py_int (int_times v f_0_85))
      else (py_int (int_times v f_1_08), v, py_int (int_times v f_0_93)))"

text \<open>A filter returned a grid, and the grid has the dimensions of the input.\<close>

definition same_size :: "image \<Rightarrow> error + image \<Rightarrow> bool" where
  "same_size img result =
     (case result of
        Inl e \<Rightarrow> False
      | Inr out \<Rightarrow> get_width out = get_width img \<and> get_height out = get_height img)"

section \<open>Sample grids\<close>

text \<open>A grid two pixels wide and three pixels high: it has no interior pixel.\<close>

definition narrow_image :: image where
  "narrow_image =
     \<lparr>width = 2, height = 3,
      pixels = [(1, 2, 3), (4, 5, 6), (7, 8, 9), (10, 11, 12), (13, 14, 15), (16, 17, 18)]\<rparr>"

definition sample_image :: image where
  "sample_image =
     \<lparr>width = 4, height = 3,
      pixels = [(10, 20, 30), (40, 50, 60), (70, 80, 90), (100, 110, 120),
                (130, 140, 150), (160, 170, 180), (190, 200, 210), (220, 230, 240),
                (250, 251, 252), (0, 1, 2), (3, 4, 5), (255, 255, 255)]\<rparr>"

text \<open>The 3 by 3 grid whose pixels are all the medium gray \<open>(128, 128, 128)\<close>.\<close>

definition mid_gray_image :: image where
  "mid_gray_image =
     \<lparr>width = 3, height = 3,
      pixels = [(128, 128, 128), (128, 128, 128), (128, 128, 128),
                (128, 128, 128), (128, 128, 128), (128, 128, 128),
                (128, 128, 128), (128, 128, 128), (128, 128, 128)]\<rparr>"

text \<open>A grid of width 0 and height 4: it is well formed and has no pixel.\<close>

definition empty_image :: image where
  "empty_image = \<lparr>width = 0, height = 4, pixels = []\<rparr>"

text \<open>A single white pixel.\<close>

definition white_pixel_image :: image where
  "white_pixel_image = \<lparr>width = 1, height = 1, pixels = [(255, 255, 255)]\<rparr>"

section \<open>Loops\<close>

lemma and_then_Inl [simp]: "and_then (Inl e) f = Inl e"
  by (simp add: and_then_def)

lemma and_then_Inr [simp]: "and_then (Inr v) f = f v"
  by (simp add: and_then_def)

lemma for_each_skip: "for_each (\<lambda>y. Inr) ys s = Inr s"
  by (induction ys arbitrary: s) simp_all

lemma py_range_empty: "b \<le> a \<Longrightarrow> py_range a b = []"
  by (simp add: py_range_def)

lemma for_each_append:
  "for_each body (as @ bs) s = and_then (for_each body as s) (for_each body bs)"
proof (induction as arbitrary: s)
  case Nil
  show ?case by simp
next
  case (Cons a as)
  show ?case
  proof (cases "body a s")
    case (Inl e)
    then show ?thesis by simp
  next
    case (Inr s')
    then show ?thesis using Cons.IH [of s'] by simp
  qed
qed

lemma for_each_cong:
  assumes "\<And>a s. a \<in> set as \<Longrightarrow> f a s = g a s"
  shows "for_each f as s = for_each g as s"
  using assms
proof (induction as arbitrary: s)
  case Nil
  show ?case by simp
next
  case (Cons a as)
  have step: "f a s = g a s" using Cons.prems by simp
  have rest: "\<And>s'. for_each f as s' = for_each g as s'"
    using Cons.IH Cons.prems by simp
  show ?case
    by (cases "g a s") (simp_all add: step rest)
qed

lemma for_each_map:
  "for_each body (map h as) s = for_each (\<lambda>a. body (h a)) as s"
proof (induction as arbitrary: s)
  case Nil
  show ?case by simp
next
  case (Cons a as)
  show ?case
    by (cases "body (h a) s") (simp_all add: Cons.IH)
qed

text \<open>Two nested loops are one loop over the pairs, the outer variable changing slowest.\<close>

lemma for_each_nested:
  "for_each (\<lambda>y s. for_each (\<lambda>x. body x y) xs s) ys s =
   for_each (\<lambda>(x, y). body x y) (concat (map (\<lambda>y. map (\<lambda>x. (x, y)) xs) ys)) s"
proof (induction ys arbitrary: s)
  case Nil
  show ?case by simp
next
  case (Cons y ys)
  have inner: "for_each (\<lambda>(x, y). body x y) (map (\<lambda>x. (x, y)) xs) s = for_each (\<lambda>x. body x y) xs s"
    by (simp add: for_each_map)
  show ?case
    by (cases "for_each (\<lambda>x. body x y) xs s") (simp_all add: for_each_append inner Cons.IH)
qed

lemma set_py_range: "set (py_range a b) = {x. a \<le> x \<and> x < b}"
  by (auto simp: py_range_def)

lemma distinct_py_range: "distinct (py_range a b)"
  by (simp add: py_range_def)

section \<open>Coordinates and offsets\<close>

lemma offset_less:
  assumes "wf_image img" and "in_bounds img x y"
  shows "offset img x y < length (pixels img)"
proof -
  let ?w = "width img" and ?h = "height img"
  from assms(2) have b: "0 \<le> x" "x < ?w" "0 \<le> y" "y < ?h"
    by (simp_all add: in_bounds_def get_width_def get_height_def)
  have "(y + 1) * ?w \<le> ?h * ?w"
    using b by (intro mult_right_mono) simp_all
  then have "y * ?w + x < ?w * ?h"
    using b by (simp add: algebra_simps)
  moreover have "0 \<le> y * ?w + x" using b by simp
  ultimately show ?thesis
    using assms(1) by (simp add: offset_def wf_image_def get_width_def)
qed

lemma offset_inj:
  assumes "in_bounds img x y" and "in_bounds img x' y'"
    and "offset img x y = offset img x' y'"
  shows "x = x' \<and> y = y'"
proof -
  let ?w = "width img"
  from assms(1) have b: "0 \<le> x" "x < ?w" "0 \<le> y"
    by (simp_all add: in_bounds_def get_width_def)
  from assms(2) have b': "0 \<le> x'" "x' < ?w" "0 \<le> y'"
    by (simp_all add: in_bounds_def get_width_def)
  have "0 \<le> y * ?w + x" "0 \<le> y' * ?w + x'" using b b' by simp_all
  with assms(3) have eq: "y * ?w + x = y' * ?w + x'"
    by (simp add: offset_def get_width_def)
  have "(y * ?w + x) div ?w = y" "(y * ?w + x) mod ?w = x"
    using b by simp_all
  moreover have "(y' * ?w + x') div ?w = y'" "(y' * ?w + x') mod ?w = x'"
    using b' by simp_all
  ultimately show ?thesis using eq by simp
qed

lemma offset_onto:
  assumes "wf_image img" and "i < length (pixels img)"
  shows "in_bounds img (int i mod width img) (int i div width img)
    \<and> offset img (int i mod width img) (int i div width img) = i"
proof -
  let ?w = "width img" and ?h = "height img"
  from assms have lt: "int i < ?w * ?h" and nn: "0 \<le> ?w" "0 \<le> ?h"
    by (simp_all add: wf_image_def)
  have wpos: "0 < ?w"
  proof (rule ccontr)
    assume "\<not> 0 < ?w"
    with nn have "?w = 0" by simp
    with lt show False by simp
  qed
  have "int i div ?w < ?h"
  proof (rule ccontr)
    assume "\<not> int i div ?w < ?h"
    then have "?h * ?w \<le> (int i div ?w) * ?w"
      using wpos by (intro mult_right_mono) simp_all
    also have "\<dots> \<le> int i"
    proof -
      have "int i div ?w * ?w + int i mod ?w = int i"
        by (rule div_mult_mod_eq)
      moreover have "0 \<le> int i mod ?w" using wpos by simp
      ultimately show ?thesis by linarith
    qed
    finally show False using lt by (simp add: mult.commute)
  qed
  moreover have "0 \<le> int i div ?w" using wpos by (simp add: pos_imp_zdiv_nonneg_iff)
  moreover have "0 \<le> int i mod ?w" "int i mod ?w < ?w" using wpos by simp_all
  ultimately show ?thesis
    by (simp add: in_bounds_def offset_def get_width_def get_height_def)
qed

lemma image_eqI:
  assumes "wf_image a" and "wf_image b"
    and "get_width a = get_width b" and "get_height a = get_height b"
    and "\<And>x y. in_bounds a x y \<Longrightarrow> pix a x y = pix b x y"
  shows "a = b"
proof -
  have len: "length (pixels a) = length (pixels b)"
    using assms(1-4) by (simp add: wf_image_def get_width_def get_height_def)
  have "pixels a = pixels b"
  proof (rule nth_equalityI [OF len])
    fix i assume i: "i < length (pixels a)"
    let ?x = "int i mod width a" and ?y = "int i div width a"
    from offset_onto [OF assms(1) i]
    have inb: "in_bounds a ?x ?y" and off: "offset a ?x ?y = i" by simp_all
    have "offset b ?x ?y = i"
      using off assms(3) by (simp add: offset_def)
    with assms(5) [OF inb] off show "pixels a ! i = pixels b ! i"
      by (simp add: pix_def)
  qed
  with assms(3,4) show ?thesis
    by (simp add: get_width_def get_height_def)
qed

lemma set_color_in_bounds:
  "in_bounds s x y \<Longrightarrow>
   set_color s x y c = Inr (s\<lparr>pixels := (pixels s)[offset s x y := c]\<rparr>)"
  by (simp add: set_color_def)

lemma get_color_in_bounds: "in_bounds s x y \<Longrightarrow> get_color s x y = Inr (pix s x y)"
  by (simp add: get_color_def)

lemma wf_image_update:
  "wf_image s \<Longrightarrow> wf_image (s\<lparr>pixels := (pixels s)[i := c]\<rparr>)"
  by (simp add: wf_image_def)

lemma in_bounds_update [simp]:
  "in_bounds (s\<lparr>pixels := ps\<rparr>) x y = in_bounds s x y"
  by (simp add: in_bounds_def get_width_def get_height_def)

lemma offset_update [simp]: "offset (s\<lparr>pixels := ps\<rparr>) x y = offset s x y"
  by (simp add: offset_def get_width_def)

lemma pix_update:
  assumes "wf_image s" and "in_bounds s x y" and "in_bounds s x' y'"
  shows "pix (s\<lparr>pixels := (pixels s)[offset s x y := c]\<rparr>) x' y' =
     (if (x', y') = (x, y) then c else pix s x' y')"
proof (cases "(x', y') = (x, y)")
  case True
  then show ?thesis
    using offset_less [OF assms(1,2)] by (simp add: pix_def)
next
  case False
  then have "offset s x y \<noteq> offset s x' y'"
    using offset_inj [OF assms(2,3)] by auto
  with False show ?thesis by (auto simp: pix_def)
qed

section \<open>Loops that write pixels\<close>

lemma for_each_writes:
  fixes tx ty :: "'a \<Rightarrow> int" and col :: "'a \<Rightarrow> color \<Rightarrow> color"
  assumes "wf_image s0"
    and "\<forall>a\<in>set as. in_bounds s0 (tx a) (ty a)"
    and "distinct (map (\<lambda>a. (tx a, ty a)) as)"
  shows "\<exists>s'. for_each (\<lambda>a s. set_color s (tx a) (ty a) (col a (pix s (tx a) (ty a)))) as s0
            = Inr s'
      \<and> wf_image s' \<and> get_width s' = get_width s0 \<and> get_height s' = get_height s0
      \<and> (\<forall>a\<in>set as. pix s' (tx a) (ty a) = col a (pix s0 (tx a) (ty a)))
      \<and> (\<forall>x y. in_bounds s0 x y \<longrightarrow> (x, y) \<notin> set (map (\<lambda>a. (tx a, ty a)) as)
            \<longrightarrow> pix s' x y = pix s0 x y)"
  using assms
proof (induction as arbitrary: s0)
  case Nil
  then show ?case by simp
next
  case (Cons a as)
  let ?c = "col a (pix s0 (tx a) (ty a))"
  let ?s1 = "s0\<lparr>pixels := (pixels s0)[offset s0 (tx a) (ty a) := ?c]\<rparr>"
  have inb_a: "in_bounds s0 (tx a) (ty a)" using Cons.prems(2) by simp
  have step: "set_color s0 (tx a) (ty a) ?c = Inr ?s1"
    using inb_a by (rule set_color_in_bounds)
  have wf1: "wf_image ?s1" using Cons.prems(1) by (rule wf_image_update)
  have dims1: "get_width ?s1 = get_width s0" "get_height ?s1 = get_height s0"
    by (simp_all add: get_width_def get_height_def)
  have inb1: "\<forall>b\<in>set as. in_bounds ?s1 (tx b) (ty b)"
    using Cons.prems(2) by simp
  have dist: "distinct (map (\<lambda>a. (tx a, ty a)) as)"
    and fresh: "(tx a, ty a) \<notin> set (map (\<lambda>a. (tx a, ty a)) as)"
    using Cons.prems(3) by simp_all
  from Cons.IH [OF wf1 inb1 dist] obtain s' where
    run: "for_each (\<lambda>a s. set_color s (tx a) (ty a) (col a (pix s (tx a) (ty a)))) as ?s1
            = Inr s'"
    and wf': "wf_image s'"
    and dims': "get_width s' = get_width ?s1" "get_height s' = get_height ?s1"
    and hit: "\<forall>b\<in>set as. pix s' (tx b) (ty b) = col b (pix ?s1 (tx b) (ty b))"
    and miss: "\<forall>x y. in_bounds ?s1 x y \<longrightarrow> (x, y) \<notin> set (map (\<lambda>a. (tx a, ty a)) as)
            \<longrightarrow> pix s' x y = pix ?s1 x y"
    by blast
  have pix1_same: "pix ?s1 (tx a) (ty a) = ?c"
    using pix_update [OF Cons.prems(1) inb_a inb_a] by simp
  have pix1_other: "\<And>x y. in_bounds s0 x y \<Longrightarrow> (x, y) \<noteq> (tx a, ty a) \<Longrightarrow>
      pix ?s1 x y = pix s0 x y"
    using pix_update [OF Cons.prems(1) inb_a] by auto
  have "for_each (\<lambda>a s. set_color s (tx a) (ty a) (col a (pix s (tx a) (ty a)))) (a # as) s0
            = Inr s'"
    using step run by simp
  moreover have "get_width s' = get_width s0" "get_height s' = get_height s0"
    using dims' dims1 by simp_all
  moreover have "\<forall>b\<in>set (a # as). pix s' (tx b) (ty b) = col b (pix s0 (tx b) (ty b))"
  proof
    fix b assume b: "b \<in> set (a # as)"
    show "pix s' (tx b) (ty b) = col b (pix s0 (tx b) (ty b))"
    proof (cases "b \<in> set as")
      case True
      then have "(tx b, ty b) \<in> set (map (\<lambda>a. (tx a, ty a)) as)"
        by (simp add: image_iff) blast
      with fresh have ne: "(tx b, ty b) \<noteq> (tx a, ty a)" by metis
      have "in_bounds s0 (tx b) (ty b)" using Cons.prems(2) True by simp
      then have "pix ?s1 (tx b) (ty b) = pix s0 (tx b) (ty b)"
        using ne by (rule pix1_other)
      with hit True show ?thesis by simp
    next
      case False
      with b have ba: "b = a" by simp
      have "pix s' (tx a) (ty a) = pix ?s1 (tx a) (ty a)"
        using miss fresh inb_a by simp
      also have "\<dots> = ?c" by (rule pix1_same)
      finally show ?thesis using ba by simp
    qed
  qed
  moreover have "\<forall>x y. in_bounds s0 x y
        \<longrightarrow> (x, y) \<notin> set (map (\<lambda>a. (tx a, ty a)) (a # as))
        \<longrightarrow> pix s' x y = pix s0 x y"
  proof (intro allI impI)
    fix x y
    assume inb: "in_bounds s0 x y"
      and out: "(x, y) \<notin> set (map (\<lambda>a. (tx a, ty a)) (a # as))"
    from out have ne: "(x, y) \<noteq> (tx a, ty a)"
      and out': "(x, y) \<notin> set (map (\<lambda>a. (tx a, ty a)) as)" by simp_all
    have "pix s' x y = pix ?s1 x y" using miss inb out' by simp
    also have "\<dots> = pix s0 x y" using inb ne by (rule pix1_other)
    finally show "pix s' x y = pix s0 x y" .
  qed
  ultimately show ?case using wf' by blast
qed


lemma set_grid:
  "set (concat (map (\<lambda>y. map (\<lambda>x. (x, y)) xs) ys)) = {(x, y). x \<in> set xs \<and> y \<in> set ys}"
  by auto

lemma distinct_grid:
  "distinct xs \<Longrightarrow> distinct ys \<Longrightarrow> distinct (concat (map (\<lambda>y. map (\<lambda>x. (x, y)) xs) ys))"
  by (induction ys) (auto simp: distinct_map inj_on_def)

lemma set_coords: "set (coords img) = {(x, y). in_bounds img x y}"
  by (auto simp: coords_def set_py_range in_bounds_def)

lemma distinct_coords: "distinct (coords img)"
  by (simp add: coords_def distinct_grid distinct_py_range)

lemma pix_map:
  assumes "wf_image img" and "in_bounds img x y"
  shows "pix (img\<lparr>pixels := map g (pixels img)\<rparr>) x y = g (pix img x y)"
  using offset_less [OF assms] by (simp add: pix_def)

lemma wf_image_map: "wf_image img \<Longrightarrow> wf_image (img\<lparr>pixels := map g (pixels img)\<rparr>)"
  by (simp add: wf_image_def)

lemma paint_all:
  assumes wf: "wf_image s0"
    and col: "\<And>x y. in_bounds s0 x y \<Longrightarrow> col (x, y) (pix s0 x y) = g (pix s0 x y)"
  shows "for_each (\<lambda>a s. set_color s (fst a) (snd a) (col a (pix s (fst a) (snd a))))
           (coords s0) s0
         = Inr (s0\<lparr>pixels := map g (pixels s0)\<rparr>)"
proof -
  have inb: "\<forall>a\<in>set (coords s0). in_bounds s0 (fst a) (snd a)"
    by (auto simp: set_coords)
  have dist: "distinct (map (\<lambda>a. (fst a, snd a)) (coords s0))"
    by (simp add: distinct_coords)
  from for_each_writes [of s0 "coords s0" fst snd col, OF wf inb dist] obtain s' where
    run: "for_each (\<lambda>a s. set_color s (fst a) (snd a) (col a (pix s (fst a) (snd a))))
            (coords s0) s0 = Inr s'"
    and wf': "wf_image s'"
    and dims: "get_width s' = get_width s0" "get_height s' = get_height s0"
    and hit: "\<forall>a\<in>set (coords s0). pix s' (fst a) (snd a) = col a (pix s0 (fst a) (snd a))"
    by blast
  let ?t = "s0\<lparr>pixels := map g (pixels s0)\<rparr>"
  have "s' = ?t"
  proof (rule image_eqI [OF wf' wf_image_map [OF wf]])
    show "get_width s' = get_width ?t" using dims by (simp add: get_width_def)
    show "get_height s' = get_height ?t" using dims by (simp add: get_height_def)
    fix x y assume "in_bounds s' x y"
    then have inb0: "in_bounds s0 x y" using dims by (simp add: in_bounds_def)
    then have "(x, y) \<in> set (coords s0)" by (simp add: set_coords)
    with hit have "pix s' x y = col (x, y) (pix s0 x y)" by force
    also have "\<dots> = g (pix s0 x y)" using inb0 by (rule col)
    also have "\<dots> = pix ?t x y" using pix_map [OF wf inb0] by simp
    finally show "pix s' x y = pix ?t x y" .
  qed
  with run show ?thesis by simp
qed

text \<open>A loop over the pixels of the input that writes a function of each colour.\<close>

lemma point_filter:
  assumes "wf_image img"
  shows "for_pixels_of (\<lambda>_. img) (\<lambda>x y c s. set_color s x y (g c)) (copy img)
         = Inr (img\<lparr>pixels := map g (pixels img)\<rparr>)"
proof -
  have "for_pixels_of (\<lambda>_. img) (\<lambda>x y c s. set_color s x y (g c)) (copy img)
      = for_each (\<lambda>a s. set_color s (fst a) (snd a)
           ((\<lambda>a _. g (pix img (fst a) (snd a))) a (pix s (fst a) (snd a)))) (coords img) img"
    unfolding for_pixels_of_def copy_def
    by (rule for_each_cong) (auto simp: set_coords get_color_in_bounds)
  also have "\<dots> = Inr (img\<lparr>pixels := map g (pixels img)\<rparr>)"
    by (rule paint_all [OF assms]) simp
  finally show ?thesis .
qed

text \<open>A loop over the pixels of the image being written, as in \<^verbatim>\<open>sepia_tint\<close>.\<close>

lemma in_place_filter:
  assumes "wf_image s0"
  shows "for_pixels_of (\<lambda>s. s) (\<lambda>x y c s. set_color s x y (g c)) (copy s0)
         = Inr (s0\<lparr>pixels := map g (pixels s0)\<rparr>)"
proof -
  have "for_pixels_of (\<lambda>s. s) (\<lambda>x y c s. set_color s x y (g c)) (copy s0)
      = for_each (\<lambda>a s. set_color s (fst a) (snd a)
           ((\<lambda>_. g) a (pix s (fst a) (snd a)))) (coords s0) s0"
    unfolding for_pixels_of_def copy_def
    by (rule for_each_cong) (auto simp: get_color_def set_color_def)
  also have "\<dots> = Inr (s0\<lparr>pixels := map g (pixels s0)\<rparr>)"
    by (rule paint_all [OF assms]) simp
  finally show ?thesis .
qed

section \<open>The point filters as maps\<close>

text \<open>
  Each point filter returns the input with every pixel replaced by the colour its loop
  body computes from that pixel alone.
\<close>

lemma grayscale_map:
  assumes "wf_image img"
  shows "grayscale img = Inr (img\<lparr>pixels := map grayscale_pixel (pixels img)\<rparr>)"
proof -
  have "grayscale img
      = for_pixels_of (\<lambda>_. img) (\<lambda>x y c s. set_color s x y (grayscale_pixel c)) (copy img)"
    unfolding grayscale_def Let_def
    by (rule arg_cong [where f = "\<lambda>body. for_pixels_of (\<lambda>_. img) body (copy img)"])
      (auto simp: fun_eq_iff grayscale_pixel_def Let_def)
  then show ?thesis by (simp add: point_filter [OF assms])
qed

lemma negative_map:
  assumes "wf_image img"
  shows "negative img = Inr (img\<lparr>pixels := map negative_pixel (pixels img)\<rparr>)"
proof -
  have "negative img
      = for_pixels_of (\<lambda>_. img) (\<lambda>x y c s. set_color s x y (negative_pixel c)) (copy img)"
    unfolding negative_def Let_def
    by (rule arg_cong [where f = "\<lambda>body. for_pixels_of (\<lambda>_. img) body (copy img)"])
      (auto simp: fun_eq_iff negative_pixel_def Let_def)
  then show ?thesis by (simp add: point_filter [OF assms])
qed

lemma black_and_white_map:
  assumes "wf_image img"
  shows "black_and_white img = Inr (img\<lparr>pixels := map black_and_white_pixel (pixels img)\<rparr>)"
proof -
  have "black_and_white img
      = for_pixels_of (\<lambda>_. img) (\<lambda>x y c s. set_color s x y (black_and_white_pixel c)) (copy img)"
    unfolding black_and_white_def Let_def
    by (rule arg_cong [where f = "\<lambda>body. for_pixels_of (\<lambda>_. img) body (copy img)"])
      (auto simp: fun_eq_iff black_and_white_pixel_def Let_def)
  then show ?thesis by (simp add: point_filter [OF assms])
qed

lemma black_and_white_and_gray_map:
  assumes "wf_image img"
  shows "black_and_white_and_gray img = Inr (img\<lparr>pixels := map black_and_white_and_gray_pixel (pixels img)\<rparr>)"
proof -
  have "black_and_white_and_gray img
      = for_pixels_of (\<lambda>_. img) (\<lambda>x y c s. set_color s x y (black_and_white_and_gray_pixel c)) (copy img)"
    unfolding black_and_white_and_gray_def Let_def
    by (rule arg_cong [where f = "\<lambda>body. for_pixels_of (\<lambda>_. img) body (copy img)"])
      (auto simp: fun_eq_iff black_and_white_and_gray_pixel_def Let_def)
  then show ?thesis by (simp add: point_filter [OF assms])
qed

lemma weighted_grayscale_map:
  assumes "wf_image img"
  shows "weighted_grayscale img = Inr (img\<lparr>pixels := map weighted_grayscale_pixel (pixels img)\<rparr>)"
proof -
  have "weighted_grayscale img
      = for_pixels_of (\<lambda>_. img) (\<lambda>x y c s. set_color s x y (weighted_grayscale_pixel c)) (copy img)"
    unfolding weighted_grayscale_def Let_def
    by (rule arg_cong [where f = "\<lambda>body. for_pixels_of (\<lambda>_. img) body (copy img)"])
      (auto simp: fun_eq_iff weighted_grayscale_pixel_def Let_def)
  then show ?thesis by (simp add: point_filter [OF assms])
qed

lemma extreme_contrast_map:
  assumes "wf_image img"
  shows "extreme_contrast img = Inr (img\<lparr>pixels := map extreme_contrast_pixel (pixels img)\<rparr>)"
proof -
  have "extreme_contrast img
      = for_pixels_of (\<lambda>_. img) (\<lambda>x y c s. set_color s x y (extreme_contrast_pixel c)) (copy img)"
    unfolding extreme_contrast_def Let_def
    by (rule arg_cong [where f = "\<lambda>body. for_pixels_of (\<lambda>_. img) body (copy img)"])
      (auto simp: fun_eq_iff extreme_contrast_pixel_def Let_def)
  then show ?thesis by (simp add: point_filter [OF assms])
qed

lemma posterize_map:
  assumes "wf_image img"
  shows "posterize img = Inr (img\<lparr>pixels := map posterize_pixel (pixels img)\<rparr>)"
proof -
  have "posterize img
      = for_pixels_of (\<lambda>_. img) (\<lambda>x y c s. set_color s x y (posterize_pixel c)) (copy img)"
    unfolding posterize_def Let_def
    by (rule arg_cong [where f = "\<lambda>body. for_pixels_of (\<lambda>_. img) body (copy img)"])
      (auto simp: fun_eq_iff posterize_pixel_def Let_def)
  then show ?thesis by (simp add: point_filter [OF assms])
qed

lemma solarize_map:
  assumes "wf_image img"
  shows "solarize img threshold
    = Inr (img\<lparr>pixels := map (solarize_pixel threshold) (pixels img)\<rparr>)"
proof -
  have "solarize img threshold
      = for_pixels_of (\<lambda>_. img) (\<lambda>x y c s. set_color s x y (solarize_pixel threshold c))
          (copy img)"
    unfolding solarize_def Let_def
    by (rule arg_cong [where f = "\<lambda>body. for_pixels_of (\<lambda>_. img) body (copy img)"])
      (auto simp: fun_eq_iff solarize_pixel_def Let_def)
  then show ?thesis by (simp add: point_filter [OF assms])
qed

lemma sepia_tint_map:
  assumes "wf_image img"
  shows "sepia_tint img
    = Inr (img\<lparr>pixels := map (sepia_pixel \<circ> weighted_grayscale_pixel) (pixels img)\<rparr>)"
proof -
  let ?gray = "img\<lparr>pixels := map weighted_grayscale_pixel (pixels img)\<rparr>"
  have wf: "wf_image ?gray" using assms by (rule wf_image_map)
  have "sepia_tint img
      = for_pixels_of (\<lambda>s. s) (\<lambda>x y c s. set_color s x y (sepia_pixel c)) (copy ?gray)"
    unfolding sepia_tint_def Let_def weighted_grayscale_map [OF assms] and_then_Inr
    by (rule arg_cong [where f = "\<lambda>body. for_pixels_of (\<lambda>s. s) body (copy ?gray)"])
      (auto simp: fun_eq_iff sepia_pixel_def Let_def)
  then show ?thesis by (simp add: in_place_filter [OF wf])
qed

section \<open>The loops over the interior\<close>

lemma set_interior: "set (interior img) = {(x, y). is_interior img x y}"
  by (auto simp: interior_def set_py_range is_interior_def)

lemma distinct_interior: "distinct (interior img)"
  by (simp add: interior_def distinct_grid distinct_py_range)

lemma interior_in_bounds:
  assumes "is_interior img x y"
  shows "in_bounds img x y" "in_bounds img (x - 1) y" "in_bounds img (x + 1) y"
    "in_bounds img x (y - 1)" "in_bounds img x (y + 1)"
    "in_bounds img (x - 1) (y - 1)" "in_bounds img (x + 1) (y - 1)"
    "in_bounds img (x - 1) (y + 1)" "in_bounds img (x + 1) (y + 1)"
  using assms by (simp_all add: is_interior_def in_bounds_def)

lemma interior_not_border: "on_border img x y \<Longrightarrow> \<not> is_interior img x y"
  by (auto simp: on_border_def is_interior_def)

lemma nested_interior:
  "for_each (\<lambda>y s. for_each (\<lambda>x. body x y) (py_range 1 (get_width img - 1)) s)
       (py_range 1 (get_height img - 1)) s0
   = for_each (\<lambda>a. body (fst a) (snd a)) (interior img) s0"
  by (simp add: for_each_nested interior_def split_def)

text \<open>
  A loop over the interior that stores \<open>v x y\<close> at \<open>(x, y)\<close> succeeds, keeps the
  dimensions, sets every interior pixel and leaves every other pixel as it was.
\<close>

lemma interior_writes:
  assumes wf: "wf_image img"
  shows "\<exists>out. for_each (\<lambda>a s. set_color s (fst a) (snd a) (v (fst a) (snd a)))
                  (interior img) img = Inr out
      \<and> wf_image out \<and> get_width out = get_width img \<and> get_height out = get_height img
      \<and> (\<forall>x y. is_interior img x y \<longrightarrow> pix out x y = v x y)
      \<and> (\<forall>x y. in_bounds img x y \<longrightarrow> \<not> is_interior img x y
            \<longrightarrow> pix out x y = pix img x y)"
proof -
  have inb: "\<forall>a\<in>set (interior img). in_bounds img (fst a) (snd a)"
    by (auto simp: set_interior interior_in_bounds)
  have dist: "distinct (map (\<lambda>a. (fst a, snd a)) (interior img))"
    by (simp add: distinct_interior)
  from for_each_writes [of img "interior img" fst snd "\<lambda>a _. v (fst a) (snd a)",
      OF wf inb dist]
  obtain out where
    run: "for_each (\<lambda>a s. set_color s (fst a) (snd a) (v (fst a) (snd a)))
            (interior img) img = Inr out"
    and wf': "wf_image out"
    and dims: "get_width out = get_width img" "get_height out = get_height img"
    and hit: "\<forall>a\<in>set (interior img). pix out (fst a) (snd a) = v (fst a) (snd a)"
    and miss: "\<forall>x y. in_bounds img x y
        \<longrightarrow> (x, y) \<notin> set (map (\<lambda>a. (fst a, snd a)) (interior img))
        \<longrightarrow> pix out x y = pix img x y"
    by blast
  have "\<forall>x y. is_interior img x y \<longrightarrow> pix out x y = v x y"
    using hit by (auto simp: set_interior)
  moreover have "\<forall>x y. in_bounds img x y \<longrightarrow> \<not> is_interior img x y
      \<longrightarrow> pix out x y = pix img x y"
    using miss by (simp add: set_interior)
  ultimately show ?thesis using run wf' dims by blast
qed

lemma blur_better_loop:
  "blur_better img
   = for_each (\<lambda>a s. set_color s (fst a) (snd a) (blur_better_pixel img (fst a) (snd a)))
       (interior img) img"
  unfolding blur_better_def Let_def copy_def nested_interior
  by (rule for_each_cong)
    (auto simp: set_interior get_color_in_bounds interior_in_bounds blur_better_pixel_def
      split: prod.splits)

lemma detect_edges_loop:
  "detect_edges img threshold
   = for_each (\<lambda>a s. set_color s (fst a) (snd a)
        (detect_edges_pixel img threshold (fst a) (snd a))) (interior img) img"
  unfolding detect_edges_def Let_def copy_def nested_interior
  by (rule for_each_cong)
    (auto simp: set_interior get_color_in_bounds interior_in_bounds detect_edges_pixel_def
      Let_def split: prod.splits)

lemma detect_edges_better_loop:
  "detect_edges_better img threshold
   = for_each (\<lambda>a s. set_color s (fst a) (snd a)
        (detect_edges_better_pixel img threshold (fst a) (snd a))) (interior img) img"
  unfolding detect_edges_better_def Let_def copy_def nested_interior
  by (rule for_each_cong)
    (auto simp: set_interior get_color_in_bounds interior_in_bounds
      detect_edges_better_pixel_def Let_def split: prod.splits)

section \<open>The flips\<close>

lemma flip_vertical_loop:
  "flip_vertical img
   = for_each (\<lambda>a s. set_color s (get_width img - (fst a + 1)) (snd a)
        (pix img (fst a) (snd a))) (interior img) img"
  unfolding flip_vertical_def Let_def copy_def nested_interior
  by (rule for_each_cong) (auto simp: set_interior get_color_in_bounds interior_in_bounds)

lemma flip_horizontal_loop:
  "flip_horizontal img
   = for_each (\<lambda>a s. set_color s (fst a) (get_height img - (snd a + 1))
        (pix img (fst a) (snd a))) (interior img) img"
  unfolding flip_horizontal_def Let_def copy_def nested_interior
  by (rule for_each_cong) (auto simp: set_interior get_color_in_bounds interior_in_bounds)

lemma mirror_interior:
  "is_interior img x y \<Longrightarrow> is_interior img (get_width img - (x + 1)) y"
  "is_interior img x y \<Longrightarrow> is_interior img x (get_height img - (y + 1))"
  by (simp_all add: is_interior_def)

text \<open>
  \<^verbatim>\<open>flip_vertical\<close> succeeds and keeps the dimensions; the interior pixel \<open>(x, y)\<close> of
  the input is found at \<open>(width - (x + 1), y)\<close>, and no pixel outside the interior is
  written.
\<close>

lemma flip_vertical_result:
  assumes wf: "wf_image img"
  shows "\<exists>out. flip_vertical img = Inr out
      \<and> wf_image out \<and> get_width out = get_width img \<and> get_height out = get_height img
      \<and> (\<forall>x y. is_interior img x y \<longrightarrow> pix out (get_width img - (x + 1)) y = pix img x y)
      \<and> (\<forall>x y. in_bounds img x y \<longrightarrow> \<not> is_interior img x y
            \<longrightarrow> pix out x y = pix img x y)"
proof -
  let ?tx = "\<lambda>a :: int \<times> int. get_width img - (fst a + 1)"
  let ?ty = "\<lambda>a :: int \<times> int. snd a"
  have inb: "\<forall>a\<in>set (interior img). in_bounds img (?tx a) (?ty a)"
    by (auto simp: set_interior intro: interior_in_bounds(1) mirror_interior(1))
  have "inj_on (\<lambda>a. (?tx a, ?ty a)) (set (interior img))"
    by (auto simp: inj_on_def)
  then have dist: "distinct (map (\<lambda>a. (?tx a, ?ty a)) (interior img))"
    by (simp add: distinct_map distinct_interior)
  from for_each_writes [of img "interior img" ?tx ?ty "\<lambda>a _. pix img (fst a) (snd a)",
      OF wf inb dist]
  obtain out where
    run: "for_each (\<lambda>a s. set_color s (?tx a) (?ty a) (pix img (fst a) (snd a)))
            (interior img) img = Inr out"
    and wf': "wf_image out"
    and dims: "get_width out = get_width img" "get_height out = get_height img"
    and hit: "\<forall>a\<in>set (interior img). pix out (?tx a) (?ty a) = pix img (fst a) (snd a)"
    and miss: "\<forall>x y. in_bounds img x y
        \<longrightarrow> (x, y) \<notin> set (map (\<lambda>a. (?tx a, ?ty a)) (interior img))
        \<longrightarrow> pix out x y = pix img x y"
    by blast
  have "\<forall>x y. is_interior img x y \<longrightarrow> pix out (get_width img - (x + 1)) y = pix img x y"
    using hit by (auto simp: set_interior)
  moreover have "\<forall>x y. in_bounds img x y \<longrightarrow> \<not> is_interior img x y
      \<longrightarrow> pix out x y = pix img x y"
  proof (intro allI impI)
    fix x y assume inb: "in_bounds img x y" and out: "\<not> is_interior img x y"
    have "(x, y) \<notin> set (map (\<lambda>a. (?tx a, ?ty a)) (interior img))"
    proof
      assume "(x, y) \<in> set (map (\<lambda>a. (?tx a, ?ty a)) (interior img))"
      then obtain x0 y0 where "is_interior img x0 y0"
        and "x = get_width img - (x0 + 1)" and "y = y0"
        by (auto simp: set_interior)
      then have "is_interior img x y" using mirror_interior(1) by simp
      with out show False by simp
    qed
    with miss inb show "pix out x y = pix img x y" by simp
  qed
  ultimately show ?thesis using run wf' dims by (simp add: flip_vertical_loop)
qed

lemma flip_horizontal_result:
  assumes wf: "wf_image img"
  shows "\<exists>out. flip_horizontal img = Inr out
      \<and> wf_image out \<and> get_width out = get_width img \<and> get_height out = get_height img
      \<and> (\<forall>x y. is_interior img x y \<longrightarrow> pix out x (get_height img - (y + 1)) = pix img x y)
      \<and> (\<forall>x y. in_bounds img x y \<longrightarrow> \<not> is_interior img x y
            \<longrightarrow> pix out x y = pix img x y)"
proof -
  let ?tx = "\<lambda>a :: int \<times> int. fst a"
  let ?ty = "\<lambda>a :: int \<times> int. get_height img - (snd a + 1)"
  have inb: "\<forall>a\<in>set (interior img). in_bounds img (?tx a) (?ty a)"
    by (auto simp: set_interior intro: interior_in_bounds(1) mirror_interior(2))
  have "inj_on (\<lambda>a. (?tx a, ?ty a)) (set (interior img))"
    by (auto simp: inj_on_def)
  then have dist: "distinct (map (\<lambda>a. (?tx a, ?ty a)) (interior img))"
    by (simp add: distinct_map distinct_interior)
  from for_each_writes [of img "interior img" ?tx ?ty "\<lambda>a _. pix img (fst a) (snd a)",
      OF wf inb dist]
  obtain out where
    run: "for_each (\<lambda>a s. set_color s (?tx a) (?ty a) (pix img (fst a) (snd a)))
            (interior img) img = Inr out"
    and wf': "wf_image out"
    and dims: "get_width out = get_width img" "get_height out = get_height img"
    and hit: "\<forall>a\<in>set (interior img). pix out (?tx a) (?ty a) = pix img (fst a) (snd a)"
    and miss: "\<forall>x y. in_bounds img x y
        \<longrightarrow> (x, y) \<notin> set (map (\<lambda>a. (?tx a, ?ty a)) (interior img))
        \<longrightarrow> pix out x y = pix img x y"
    by blast
  have "\<forall>x y. is_interior img x y \<longrightarrow> pix out x (get_height img - (y + 1)) = pix img x y"
    using hit by (auto simp: set_interior)
  moreover have "\<forall>x y. in_bounds img x y \<longrightarrow> \<not> is_interior img x y
      \<longrightarrow> pix out x y = pix img x y"
  proof (intro allI impI)
    fix x y assume inb: "in_bounds img x y" and out: "\<not> is_interior img x y"
    have "(x, y) \<notin> set (map (\<lambda>a. (?tx a, ?ty a)) (interior img))"
    proof
      assume "(x, y) \<in> set (map (\<lambda>a. (?tx a, ?ty a)) (interior img))"
      then obtain x0 y0 where "is_interior img x0 y0"
        and "x = x0" and "y = get_height img - (y0 + 1)"
        by (auto simp: set_interior)
      then have "is_interior img x y" using mirror_interior(2) by simp
      with out show False by simp
    qed
    with miss inb show "pix out x y = pix img x y" by simp
  qed
  ultimately show ?thesis using run wf' dims by (simp add: flip_horizontal_loop)
qed

section \<open>Dimensions\<close>

lemma same_size_map: "same_size img (Inr (img\<lparr>pixels := ps\<rparr>))"
  by (simp add: same_size_def get_width_def get_height_def)

lemma same_size_interior:
  assumes "wf_image img"
  shows "same_size img
    (for_each (\<lambda>a s. set_color s (fst a) (snd a) (v (fst a) (snd a))) (interior img) img)"
  using interior_writes [OF assms, of v] by (auto simp: same_size_def)

text \<open>
  Claim C1. Every filter, applied to a grid with one pixel per coordinate, returns a grid
  (it raises no error), and the grid it returns has the width and the height of the input.
\<close>

theorem dimensions_preserved:
  assumes "wf_image img"
  shows "same_size img (grayscale img)
    \<and> same_size img (weighted_grayscale img)
    \<and> same_size img (negative img)
    \<and> same_size img (solarize img threshold)
    \<and> same_size img (black_and_white img)
    \<and> same_size img (black_and_white_and_gray img)
    \<and> same_size img (extreme_contrast img)
    \<and> same_size img (sepia_tint img)
    \<and> same_size img (posterize img)
    \<and> same_size img (detect_edges img edge_threshold)
    \<and> same_size img (detect_edges_better img edge_threshold)
    \<and> same_size img (blur_better img)
    \<and> same_size img (flip_vertical img)
    \<and> same_size img (flip_horizontal img)"
proof -
  have point: "same_size img (grayscale img)" "same_size img (weighted_grayscale img)"
    "same_size img (negative img)" "same_size img (solarize img threshold)"
    "same_size img (black_and_white img)" "same_size img (black_and_white_and_gray img)"
    "same_size img (extreme_contrast img)" "same_size img (sepia_tint img)"
    "same_size img (posterize img)"
    using assms
    by (simp_all add: grayscale_map weighted_grayscale_map negative_map solarize_map
        black_and_white_map black_and_white_and_gray_map extreme_contrast_map
        sepia_tint_map posterize_map same_size_map)
  have nbhd: "same_size img (detect_edges img edge_threshold)"
    "same_size img (detect_edges_better img edge_threshold)"
    "same_size img (blur_better img)"
    using assms
    by (simp_all add: detect_edges_loop detect_edges_better_loop blur_better_loop
        same_size_interior)
  have flipv: "same_size img (flip_vertical img)"
    using flip_vertical_result [OF assms] by (auto simp: same_size_def)
  have fliph: "same_size img (flip_horizontal img)"
    using flip_horizontal_result [OF assms] by (auto simp: same_size_def)
  show ?thesis using point nbhd flipv fliph by simp
qed

theorem dimensions_preserved_witness:
  "wf_image sample_image
    \<and> same_size sample_image (grayscale sample_image)
    \<and> same_size sample_image (weighted_grayscale sample_image)
    \<and> same_size sample_image (negative sample_image)
    \<and> same_size sample_image (solarize sample_image 128)
    \<and> same_size sample_image (black_and_white sample_image)
    \<and> same_size sample_image (black_and_white_and_gray sample_image)
    \<and> same_size sample_image (extreme_contrast sample_image)
    \<and> same_size sample_image (sepia_tint sample_image)
    \<and> same_size sample_image (posterize sample_image)
    \<and> same_size sample_image (detect_edges sample_image 50)
    \<and> same_size sample_image (detect_edges_better sample_image 50)
    \<and> same_size sample_image (blur_better sample_image)
    \<and> same_size sample_image (flip_vertical sample_image)
    \<and> same_size sample_image (flip_horizontal sample_image)"
proof -
  have wf: "wf_image sample_image"
    by (simp add: wf_image_def sample_image_def)
  show ?thesis
    using wf dimensions_preserved [OF wf, of 128 50] by simp
qed

section \<open>Negative and solarize\<close>

lemma negative_pixel_twice: "negative_pixel (negative_pixel col) = col"
  by (cases col) (simp add: negative_pixel_def create_color_def)

text \<open>
  Claim C3. On a grid whose channels all lie in 0..255, applying \<^verbatim>\<open>negative\<close> twice
  gives the input back, pixel for pixel: each channel \<open>c\<close> becomes \<open>255 - c\<close> and then
  \<open>255 - (255 - c) = c\<close>.
\<close>

theorem negative_involution:
  assumes "wf_image img" and "channels_ok img"
  shows "and_then (negative img) negative = Inr img"
proof -
  let ?once = "img\<lparr>pixels := map negative_pixel (pixels img)\<rparr>"
  have wf: "wf_image ?once" using assms(1) by (rule wf_image_map)
  have "map (negative_pixel \<circ> negative_pixel) (pixels img) = pixels img"
    by (rule map_idI) (simp add: negative_pixel_twice)
  then show ?thesis
    by (simp add: negative_map [OF assms(1)] negative_map [OF wf])
qed

theorem negative_involution_witness:
  "wf_image sample_image \<and> channels_ok sample_image
   \<and> and_then (negative sample_image) negative = Inr sample_image"
proof -
  have wf: "wf_image sample_image"
    by (simp add: wf_image_def sample_image_def)
  have ok: "channels_ok sample_image"
    by (simp add: channels_ok_def color_ok_def channel_ok_def sample_image_def)
  show ?thesis using wf ok negative_involution [OF wf ok] by simp
qed

lemma solarize_pixel_0: "color_ok col \<Longrightarrow> solarize_pixel 0 col = col"
  by (cases col) (simp add: solarize_pixel_def create_color_def color_ok_def channel_ok_def)

lemma solarize_pixel_256: "color_ok col \<Longrightarrow> solarize_pixel 256 col = negative_pixel col"
  by (cases col)
    (simp add: solarize_pixel_def negative_pixel_def create_color_def color_ok_def
      channel_ok_def)

text \<open>
  Claim C4. On a grid whose channels all lie in 0..255, \<^verbatim>\<open>solarize\<close> with threshold 0
  returns the input unchanged (no channel is below 0), and with threshold 256 it returns
  what \<^verbatim>\<open>negative\<close> returns (every channel is below 256, so every channel is inverted).
\<close>

theorem solarize_boundary:
  assumes "wf_image img" and "channels_ok img"
  shows "solarize img 0 = Inr img \<and> solarize img 256 = negative img"
proof -
  from assms(2) have ok: "\<And>col. col \<in> set (pixels img) \<Longrightarrow> color_ok col"
    by (simp add: channels_ok_def list_all_iff)
  have "map (solarize_pixel 0) (pixels img) = pixels img"
    by (rule map_idI) (simp add: ok solarize_pixel_0)
  moreover have "map (solarize_pixel 256) (pixels img) = map negative_pixel (pixels img)"
    by (rule map_cong) (simp_all add: ok solarize_pixel_256)
  ultimately show ?thesis
    by (simp add: solarize_map [OF assms(1)] negative_map [OF assms(1)])
qed

theorem solarize_boundary_witness:
  "wf_image sample_image \<and> channels_ok sample_image
   \<and> solarize sample_image 0 = Inr sample_image
   \<and> solarize sample_image 256 = negative sample_image"
proof -
  have wf: "wf_image sample_image"
    by (simp add: wf_image_def sample_image_def)
  have ok: "channels_ok sample_image"
    by (simp add: channels_ok_def color_ok_def channel_ok_def sample_image_def)
  show ?thesis using wf ok solarize_boundary [OF wf ok] by simp
qed

section \<open>The mid-gray example\<close>

text \<open>
  Claim C9. On the 3 by 3 grid of medium gray \<open>(128, 128, 128)\<close>,
  \<^verbatim>\<open>black_and_white_and_gray\<close> returns the grid unchanged, \<^verbatim>\<open>extreme_contrast\<close> returns
  the grid with every pixel white, and \<^verbatim>\<open>posterize\<close> returns the grid with every pixel
  \<open>(159, 159, 159)\<close>.
\<close>

theorem mid_gray_example:
  "black_and_white_and_gray mid_gray_image = Inr mid_gray_image
   \<and> extreme_contrast mid_gray_image
       = Inr \<lparr>width = 3, height = 3,
              pixels = [(255, 255, 255), (255, 255, 255), (255, 255, 255),
                        (255, 255, 255), (255, 255, 255), (255, 255, 255),
                        (255, 255, 255), (255, 255, 255), (255, 255, 255)]\<rparr>
   \<and> posterize mid_gray_image
       = Inr \<lparr>width = 3, height = 3,
              pixels = [(159, 159, 159), (159, 159, 159), (159, 159, 159),
                        (159, 159, 159), (159, 159, 159), (159, 159, 159),
                        (159, 159, 159), (159, 159, 159), (159, 159, 159)]\<rparr>"
  by code_simp

section \<open>The neighbourhood filters\<close>

lemma in_bounds_same_size:
  "get_width a = get_width b \<Longrightarrow> get_height a = get_height b \<Longrightarrow>
   in_bounds a x y = in_bounds b x y"
  by (simp add: in_bounds_def)

lemma on_border_in_bounds: "on_border img x y \<Longrightarrow> in_bounds img x y"
  by (simp add: on_border_def)

text \<open>
  Read through \<^verbatim>\<open>get_color\<close>, the result of a loop over the interior shows the computed
  colour at every interior pixel and the colour of the input on the border.
\<close>

lemma interior_filter:
  assumes wf: "wf_image img"
  shows "\<exists>out. for_each (\<lambda>a s. set_color s (fst a) (snd a) (v (fst a) (snd a)))
                  (interior img) img = Inr out
      \<and> (\<forall>x y. on_border img x y \<longrightarrow> get_color out x y = get_color img x y)
      \<and> (\<forall>x y. is_interior img x y \<longrightarrow> get_color out x y = Inr (v x y))"
proof -
  from interior_writes [OF wf, of v] obtain out where
    run: "for_each (\<lambda>a s. set_color s (fst a) (snd a) (v (fst a) (snd a)))
            (interior img) img = Inr out"
    and dims: "get_width out = get_width img" "get_height out = get_height img"
    and hit: "\<forall>x y. is_interior img x y \<longrightarrow> pix out x y = v x y"
    and miss: "\<forall>x y. in_bounds img x y \<longrightarrow> \<not> is_interior img x y
            \<longrightarrow> pix out x y = pix img x y"
    by blast
  have same: "\<And>x y. in_bounds out x y = in_bounds img x y"
    using dims by (rule in_bounds_same_size)
  have "\<forall>x y. on_border img x y \<longrightarrow> get_color out x y = get_color img x y"
  proof (intro allI impI)
    fix x y assume b: "on_border img x y"
    then have "pix out x y = pix img x y"
      using miss on_border_in_bounds interior_not_border by blast
    then show "get_color out x y = get_color img x y"
      by (simp add: get_color_def same)
  qed
  moreover have "\<forall>x y. is_interior img x y \<longrightarrow> get_color out x y = Inr (v x y)"
  proof (intro allI impI)
    fix x y assume i: "is_interior img x y"
    then have "in_bounds out x y" by (simp add: same interior_in_bounds(1))
    with hit i show "get_color out x y = Inr (v x y)"
      by (simp add: get_color_def)
  qed
  ultimately show ?thesis using run by blast
qed

lemma blur_better_pixel_window:
  "blur_better_pixel img x y =
     (window_sum img red x y div 9, window_sum img green x y div 9,
      window_sum img blue x y div 9)"
proof -
  have r: "window_sum img red x y =
      red (pix img x (y - 1)) + red (pix img (x - 1) y) + red (pix img x (y + 1))
      + red (pix img (x + 1) y) + red (pix img x y) + red (pix img (x + 1) (y - 1))
      + red (pix img (x - 1) (y - 1)) + red (pix img (x + 1) (y + 1))
      + red (pix img (x - 1) (y + 1))"
    by (simp add: window_sum_def)
  have g: "window_sum img green x y =
      green (pix img x (y - 1)) + green (pix img (x - 1) y) + green (pix img x (y + 1))
      + green (pix img (x + 1) y) + green (pix img x y) + green (pix img (x + 1) (y - 1))
      + green (pix img (x - 1) (y - 1)) + green (pix img (x + 1) (y + 1))
      + green (pix img (x - 1) (y + 1))"
    by (simp add: window_sum_def)
  have b: "window_sum img blue x y =
      blue (pix img x (y - 1)) + blue (pix img (x - 1) y) + blue (pix img x (y + 1))
      + blue (pix img (x + 1) y) + blue (pix img x y) + blue (pix img (x + 1) (y - 1))
      + blue (pix img (x - 1) (y - 1)) + blue (pix img (x + 1) (y + 1))
      + blue (pix img (x - 1) (y + 1))"
    by (simp add: window_sum_def)
  show ?thesis
    unfolding r g b blur_better_pixel_def create_color_def red_def green_def blue_def
    by (simp add: case_prod_beta)
qed


text \<open>
  Claim C6. \<^verbatim>\<open>blur_better\<close> leaves every pixel of row 0, of the last row, of column 0
  and of the last column as it is in the input, and sets each channel of every interior
  pixel to the floor of one ninth of the sum of that channel over the pixel and its eight
  neighbours in the input.
\<close>

theorem blur_better_border_and_interior:
  assumes "wf_image img"
  shows "\<exists>out. blur_better img = Inr out
      \<and> (\<forall>x y. on_border img x y \<longrightarrow> get_color out x y = get_color img x y)
      \<and> (\<forall>x y. is_interior img x y \<longrightarrow>
            get_color out x y =
              Inr (window_sum img red x y div 9, window_sum img green x y div 9,
                   window_sum img blue x y div 9))"
  using interior_filter [OF assms, of "blur_better_pixel img"]
  by (simp add: blur_better_loop blur_better_pixel_window)

theorem blur_better_border_and_interior_witness:
  "wf_image sample_image \<and> on_border sample_image 3 2 \<and> is_interior sample_image 1 1
   \<and> (\<exists>out. blur_better sample_image = Inr out
         \<and> get_color out 3 2 = Inr (255, 255, 255)
         \<and> get_color out 1 1 = Inr (94, 101, 108))"
proof -
  have wf: "wf_image sample_image"
    by (simp add: wf_image_def sample_image_def)
  have border: "on_border sample_image 3 2"
    by (simp add: on_border_def in_bounds_def get_width_def get_height_def sample_image_def)
  have inner: "is_interior sample_image 1 1"
    by (simp add: is_interior_def get_width_def get_height_def sample_image_def)
  have corner: "get_color sample_image 3 2 = Inr (255, 255, 255)"
    by (simp add: get_color_def in_bounds_def pix_def offset_def get_width_def
        get_height_def sample_image_def)
  have sums: "window_sum sample_image red 1 1 div 9 = 94"
    "window_sum sample_image green 1 1 div 9 = 101"
    "window_sum sample_image blue 1 1 div 9 = 108"
    by (simp_all add: window_sum_def pix_def offset_def get_width_def sample_image_def
        red_def green_def blue_def)
  from blur_better_border_and_interior [OF wf] obtain out where
    "blur_better sample_image = Inr out"
    and "\<forall>x y. on_border sample_image x y \<longrightarrow> get_color out x y = get_color sample_image x y"
    and "\<forall>x y. is_interior sample_image x y \<longrightarrow>
            get_color out x y =
              Inr (window_sum sample_image red x y div 9,
                   window_sum sample_image green x y div 9,
                   window_sum sample_image blue x y div 9)"
    by blast
  with border inner corner sums
  have "blur_better sample_image = Inr out \<and> get_color out 3 2 = Inr (255, 255, 255)
      \<and> get_color out 1 1 = Inr (94, 101, 108)"
    by simp
  with wf border inner show ?thesis by blast
qed

lemma detect_edges_better_pixel_brightness:
  "detect_edges_better_pixel img threshold x y =
     (if of_int (brightness (pix img x y) - brightness (pix img x (y + 1))) > threshold
         \<or> of_int (brightness (pix img x y) - brightness (pix img (x + 1) y)) > threshold
      then (0, 0, 0) else (255, 255, 255))"
  by (simp add: detect_edges_better_pixel_def brightness_def create_color_def Let_def
      case_prod_beta)

text \<open>
  Claim C7. For every threshold, \<^verbatim>\<open>detect_edges_better\<close> sets an interior pixel to black
  when the brightness of the pixel minus the brightness of the pixel below it, or minus
  the brightness of the pixel to its right, exceeds the threshold, and to white otherwise;
  brightness is the floor average of the three channels in the input grid. Every border
  pixel keeps its colour.
\<close>

theorem detect_edges_better_spec:
  assumes "wf_image img"
  shows "\<exists>out. detect_edges_better img threshold = Inr out
      \<and> (\<forall>x y. on_border img x y \<longrightarrow> get_color out x y = get_color img x y)
      \<and> (\<forall>x y. is_interior img x y \<longrightarrow>
            get_color out x y =
              Inr (if of_int (brightness (pix img x y) - brightness (pix img x (y + 1)))
                        > threshold
                      \<or> of_int (brightness (pix img x y) - brightness (pix img (x + 1) y))
                        > threshold
                   then (0, 0, 0) else (255, 255, 255)))"
  using interior_filter [OF assms, of "detect_edges_better_pixel img threshold"]
  by (simp add: detect_edges_better_loop detect_edges_better_pixel_brightness)

theorem detect_edges_better_spec_witness:
  "wf_image sample_image \<and> on_border sample_image 0 1 \<and> is_interior sample_image 1 1
   \<and> (\<exists>out. detect_edges_better sample_image 50 = Inr out
         \<and> get_color out 0 1 = Inr (130, 140, 150)
         \<and> get_color out 1 1 = Inr (0, 0, 0))
   \<and> (\<exists>out. detect_edges_better sample_image 200 = Inr out
         \<and> get_color out 1 1 = Inr (255, 255, 255))"
proof -
  have wf: "wf_image sample_image"
    by (simp add: wf_image_def sample_image_def)
  have border: "on_border sample_image 0 1"
    by (simp add: on_border_def in_bounds_def get_width_def get_height_def sample_image_def)
  have inner: "is_interior sample_image 1 1"
    by (simp add: is_interior_def get_width_def get_height_def sample_image_def)
  have edge: "get_color sample_image 0 1 = Inr (130, 140, 150)"
    by (simp add: get_color_def in_bounds_def pix_def offset_def get_width_def
        get_height_def sample_image_def)
  have b: "brightness (pix sample_image 1 1) = 170"
    "brightness (pix sample_image 1 2) = 1" "brightness (pix sample_image 2 1) = 200"
    by (simp_all add: brightness_def pix_def offset_def get_width_def sample_image_def)
  from detect_edges_better_spec [OF wf, of 50] border inner edge b
  have low: "\<exists>out. detect_edges_better sample_image 50 = Inr out
         \<and> get_color out 0 1 = Inr (130, 140, 150)
         \<and> get_color out 1 1 = Inr (0, 0, 0)"
    by fastforce
  from detect_edges_better_spec [OF wf, of 200] inner b
  have high: "\<exists>out. detect_edges_better sample_image 200 = Inr out
         \<and> get_color out 1 1 = Inr (255, 255, 255)"
    by fastforce
  from wf border inner low high show ?thesis by blast
qed

section \<open>Flipping twice\<close>

lemma is_interior_same_size:
  "get_width a = get_width b \<Longrightarrow> get_height a = get_height b \<Longrightarrow>
   is_interior a x y = is_interior b x y"
  by (simp add: is_interior_def)

text \<open>
  Claim C5. Applying \<^verbatim>\<open>flip_vertical\<close> twice restores every interior pixel
  (\<open>1 \<le> x < w - 1\<close>, \<open>1 \<le> y < h - 1\<close>) of the input, and each of the two applications
  leaves every border pixel (\<open>x = 0\<close>, \<open>x = w - 1\<close>, \<open>y = 0\<close> or \<open>y = h - 1\<close>) as it
  found it.
\<close>

theorem flip_vertical_twice:
  assumes "wf_image img"
  shows "\<exists>once twice. flip_vertical img = Inr once \<and> flip_vertical once = Inr twice
      \<and> (\<forall>x y. is_interior img x y \<longrightarrow> get_color twice x y = get_color img x y)
      \<and> (\<forall>x y. on_border img x y \<longrightarrow>
            get_color once x y = get_color img x y
            \<and> get_color twice x y = get_color once x y)"
proof -
  from flip_vertical_result [OF assms] obtain once where
    run1: "flip_vertical img = Inr once"
    and wf1: "wf_image once"
    and dims1: "get_width once = get_width img" "get_height once = get_height img"
    and hit1: "\<forall>x y. is_interior img x y
        \<longrightarrow> pix once (get_width img - (x + 1)) y = pix img x y"
    and miss1: "\<forall>x y. in_bounds img x y \<longrightarrow> \<not> is_interior img x y
        \<longrightarrow> pix once x y = pix img x y"
    by blast
  from flip_vertical_result [OF wf1] obtain twice where
    run2: "flip_vertical once = Inr twice"
    and dims2: "get_width twice = get_width once" "get_height twice = get_height once"
    and hit2: "\<forall>x y. is_interior once x y
        \<longrightarrow> pix twice (get_width once - (x + 1)) y = pix once x y"
    and miss2: "\<forall>x y. in_bounds once x y \<longrightarrow> \<not> is_interior once x y
        \<longrightarrow> pix twice x y = pix once x y"
    by blast
  have inb1: "\<And>x y. in_bounds once x y = in_bounds img x y"
    using dims1 by (rule in_bounds_same_size)
  have inb2: "\<And>x y. in_bounds twice x y = in_bounds img x y"
    using dims1 dims2 by (simp add: in_bounds_def)
  have int1: "\<And>x y. is_interior once x y = is_interior img x y"
    using dims1 by (rule is_interior_same_size)
  have "\<forall>x y. is_interior img x y \<longrightarrow> get_color twice x y = get_color img x y"
  proof (intro allI impI)
    fix x y assume i: "is_interior img x y"
    let ?m = "get_width img - (x + 1)"
    have m: "is_interior img ?m y" using i by (rule mirror_interior(1))
    have undo: "get_width once - (?m + 1) = x" by (simp add: dims1)
    have "is_interior once ?m y" using m by (simp only: int1)
    with hit2 have "pix twice (get_width once - (?m + 1)) y = pix once ?m y"
      by blast
    then have "pix twice x y = pix once ?m y"
      by (simp only: undo)
    also have "\<dots> = pix img x y" using hit1 i by simp
    finally show "get_color twice x y = get_color img x y"
      by (simp add: get_color_def inb2)
  qed
  moreover have "\<forall>x y. on_border img x y \<longrightarrow>
      get_color once x y = get_color img x y \<and> get_color twice x y = get_color once x y"
  proof (intro allI impI)
    fix x y assume b: "on_border img x y"
    then have inb: "in_bounds img x y" and out: "\<not> is_interior img x y"
      by (simp_all add: on_border_in_bounds interior_not_border)
    have "pix once x y = pix img x y" using miss1 inb out by simp
    moreover have "pix twice x y = pix once x y"
      using miss2 inb out by (simp add: inb1 int1)
    ultimately show "get_color once x y = get_color img x y
        \<and> get_color twice x y = get_color once x y"
      by (simp add: get_color_def inb1 inb2)
  qed
  ultimately show ?thesis using run1 run2 by blast
qed

theorem flip_vertical_twice_witness:
  "wf_image sample_image \<and> is_interior sample_image 1 1 \<and> on_border sample_image 0 1
   \<and> (\<exists>once twice. flip_vertical sample_image = Inr once \<and> flip_vertical once = Inr twice
         \<and> get_color twice 1 1 = Inr (160, 170, 180)
         \<and> get_color once 0 1 = Inr (130, 140, 150)
         \<and> get_color twice 0 1 = Inr (130, 140, 150))"
proof -
  have wf: "wf_image sample_image"
    by (simp add: wf_image_def sample_image_def)
  have border: "on_border sample_image 0 1"
    by (simp add: on_border_def in_bounds_def get_width_def get_height_def sample_image_def)
  have inner: "is_interior sample_image 1 1"
    by (simp add: is_interior_def get_width_def get_height_def sample_image_def)
  have px: "get_color sample_image 0 1 = Inr (130, 140, 150)"
    "get_color sample_image 1 1 = Inr (160, 170, 180)"
    by (simp_all add: get_color_def in_bounds_def pix_def offset_def get_width_def
        get_height_def sample_image_def)
  from flip_vertical_twice [OF wf] border inner px
  have "\<exists>once twice. flip_vertical sample_image = Inr once \<and> flip_vertical once = Inr twice
         \<and> get_color twice 1 1 = Inr (160, 170, 180)
         \<and> get_color once 0 1 = Inr (130, 140, 150)
         \<and> get_color twice 0 1 = Inr (130, 140, 150)"
    by fastforce
  with wf border inner show ?thesis by blast
qed

section \<open>Grids of width or height 0\<close>

lemma interior_empty:
  "get_width img \<le> 2 \<or> get_height img \<le> 2 \<Longrightarrow> interior img = []"
  by (auto simp: interior_def py_range_empty)

lemma coords_empty:
  "get_width img \<le> 0 \<or> get_height img \<le> 0 \<Longrightarrow> coords img = []"
  by (auto simp: coords_def py_range_empty)

lemma for_pixels_of_empty: "coords (src s0) = [] \<Longrightarrow> for_pixels_of src body s0 = Inr s0"
  by (simp add: for_pixels_of_def)

text \<open>
  Claim C2, as the specification states it, asks every filter to report an
  \<^verbatim>\<open>InvalidDimensions\<close> error for a grid of width or height 0. No filter inspects the
  dimensions: on the grid of width 0 and height 4 each of them returns the grid, not an
  error.
\<close>

theorem zero_width_grid_accepted:
  "wf_image empty_image \<and> get_width empty_image = 0
   \<and> grayscale empty_image = Inr empty_image
   \<and> weighted_grayscale empty_image = Inr empty_image
   \<and> negative empty_image = Inr empty_image
   \<and> solarize empty_image 128 = Inr empty_image
   \<and> black_and_white empty_image = Inr empty_image
   \<and> black_and_white_and_gray empty_image = Inr empty_image
   \<and> extreme_contrast empty_image = Inr empty_image
   \<and> sepia_tint empty_image = Inr empty_image
   \<and> posterize empty_image = Inr empty_image
   \<and> detect_edges empty_image 50 = Inr empty_image
   \<and> detect_edges_better empty_image 50 = Inr empty_image
   \<and> blur_better empty_image = Inr empty_image
   \<and> flip_vertical empty_image = Inr empty_image
   \<and> flip_horizontal empty_image = Inr empty_image"
proof -
  have wf: "wf_image empty_image"
    by (simp add: wf_image_def empty_image_def)
  have w: "get_width empty_image = 0"
    by (simp add: get_width_def empty_image_def)
  have none: "coords empty_image = []" "interior empty_image = []"
    using w by (simp_all add: coords_empty interior_empty)
  have point: "grayscale empty_image = Inr empty_image"
    "weighted_grayscale empty_image = Inr empty_image"
    "negative empty_image = Inr empty_image"
    "solarize empty_image 128 = Inr empty_image"
    "black_and_white empty_image = Inr empty_image"
    "black_and_white_and_gray empty_image = Inr empty_image"
    "extreme_contrast empty_image = Inr empty_image"
    "posterize empty_image = Inr empty_image"
    by (simp_all add: grayscale_def weighted_grayscale_def negative_def solarize_def
        black_and_white_def black_and_white_and_gray_def extreme_contrast_def posterize_def
        Let_def copy_def for_pixels_of_empty none)
  have sepia: "sepia_tint empty_image = Inr empty_image"
    by (simp add: sepia_tint_def point Let_def copy_def for_pixels_of_empty none)
  have inner: "detect_edges empty_image 50 = Inr empty_image"
    "detect_edges_better empty_image 50 = Inr empty_image"
    "blur_better empty_image = Inr empty_image"
    "flip_vertical empty_image = Inr empty_image"
    "flip_horizontal empty_image = Inr empty_image"
    by (simp_all add: detect_edges_loop detect_edges_better_loop blur_better_loop
        flip_vertical_loop flip_horizontal_loop none)
  show ?thesis using wf w point sepia inner by simp
qed

text \<open>
  Claim C2, amended. On a grid whose width or height is 0 every filter returns a grid
  equal to its input and reports no error: the iteration over the pixels and the loops
  over \<^verbatim>\<open>range(1, dim - 1)\<close> are empty, so no pixel is read or written.
\<close>

theorem zero_dimension_unchanged:
  assumes "get_width img = 0 \<or> get_height img = 0"
  shows "grayscale img = Inr img
    \<and> weighted_grayscale img = Inr img
    \<and> negative img = Inr img
    \<and> solarize img threshold = Inr img
    \<and> black_and_white img = Inr img
    \<and> black_and_white_and_gray img = Inr img
    \<and> extreme_contrast img = Inr img
    \<and> sepia_tint img = Inr img
    \<and> posterize img = Inr img
    \<and> detect_edges img edge_threshold = Inr img
    \<and> detect_edges_better img edge_threshold = Inr img
    \<and> blur_better img = Inr img
    \<and> flip_vertical img = Inr img
    \<and> flip_horizontal img = Inr img"
proof -
  have none: "coords img = []" "interior img = []"
    using assms by (auto simp: coords_empty interior_empty)
  have point: "grayscale img = Inr img" "weighted_grayscale img = Inr img"
    "negative img = Inr img" "solarize img threshold = Inr img"
    "black_and_white img = Inr img" "black_and_white_and_gray img = Inr img"
    "extreme_contrast img = Inr img" "posterize img = Inr img"
    by (simp_all add: grayscale_def weighted_grayscale_def negative_def solarize_def
        black_and_white_def black_and_white_and_gray_def extreme_contrast_def posterize_def
        Let_def copy_def for_pixels_of_empty none)
  have sepia: "sepia_tint img = Inr img"
    by (simp add: sepia_tint_def point Let_def copy_def for_pixels_of_empty none)
  have inner: "detect_edges img edge_threshold = Inr img"
    "detect_edges_better img edge_threshold = Inr img"
    "blur_better img = Inr img" "flip_vertical img = Inr img"
    "flip_horizontal img = Inr img"
    by (simp_all add: detect_edges_loop detect_edges_better_loop blur_better_loop
        flip_vertical_loop flip_horizontal_loop none)
  show ?thesis using point sepia inner by simp
qed

theorem zero_dimension_unchanged_witness:
  "(get_width empty_image = 0 \<or> get_height empty_image = 0)
   \<and> grayscale empty_image = Inr empty_image
   \<and> sepia_tint empty_image = Inr empty_image
   \<and> blur_better empty_image = Inr empty_image
   \<and> flip_horizontal empty_image = Inr empty_image"
proof -
  have zero: "get_width empty_image = 0 \<or> get_height empty_image = 0"
    by (simp add: get_width_def empty_image_def)
  show ?thesis
    using zero zero_dimension_unchanged [OF zero, of 128 50] by simp
qed

section \<open>Sepia\<close>

lemma weighted_grayscale_pixel_gray:
  "weighted_grayscale_pixel col = (gray_value col, gray_value col, gray_value col)"
  by (cases col)
    (simp add: weighted_grayscale_pixel_def gray_value_def create_color_def Let_def)

lemma sepia_pixel_gray: "sepia_pixel (v, v, v) = sepia_of_gray v"
  by (simp add: sepia_pixel_def sepia_of_gray_def create_color_def Let_def)

text \<open>
  Claim C8. \<^verbatim>\<open>sepia_tint\<close> first applies \<^verbatim>\<open>weighted_grayscale\<close>, which makes the three
  channels of every pixel equal to its gray value \<open>v\<close>. It then stores, for every pixel,
  red \<open>v * 1.1\<close> and blue \<open>v * 0.9\<close> when \<open>v < 63\<close>, red \<open>v * 1.15\<close> and blue
  \<open>v * 0.85\<close> when \<open>63 \<le> v < 191\<close>, and red \<open>v * 1.08\<close> and blue \<open>v * 0.93\<close>
  otherwise, each truncated to an integer and not clamped, with green left at \<open>v\<close>.
  A white pixel has gray value 255, and its stored red channel is 275, above 255.
\<close>

theorem sepia_tint_spec:
  assumes "wf_image img"
  shows "(\<exists>gray out. weighted_grayscale img = Inr gray \<and> sepia_tint img = Inr out
      \<and> (\<forall>x y. in_bounds img x y \<longrightarrow>
            get_color gray x y
              = Inr (gray_value (pix img x y), gray_value (pix img x y),
                     gray_value (pix img x y))
            \<and> get_color out x y = Inr (sepia_of_gray (gray_value (pix img x y)))))
    \<and> weighted_grayscale white_pixel_image = Inr white_pixel_image
    \<and> sepia_tint white_pixel_image
        = Inr \<lparr>width = 1, height = 1, pixels = [(275, 255, 237)]\<rparr>"
proof -
  let ?gray = "img\<lparr>pixels := map weighted_grayscale_pixel (pixels img)\<rparr>"
  let ?out = "img\<lparr>pixels := map (sepia_pixel \<circ> weighted_grayscale_pixel) (pixels img)\<rparr>"
  have "\<forall>x y. in_bounds img x y \<longrightarrow>
      get_color ?gray x y
        = Inr (gray_value (pix img x y), gray_value (pix img x y), gray_value (pix img x y))
      \<and> get_color ?out x y = Inr (sepia_of_gray (gray_value (pix img x y)))"
    by (simp add: get_color_def pix_map [OF assms] weighted_grayscale_pixel_gray
        sepia_pixel_gray)
  then have general: "\<exists>gray out. weighted_grayscale img = Inr gray \<and> sepia_tint img = Inr out
      \<and> (\<forall>x y. in_bounds img x y \<longrightarrow>
            get_color gray x y
              = Inr (gray_value (pix img x y), gray_value (pix img x y),
                     gray_value (pix img x y))
            \<and> get_color out x y = Inr (sepia_of_gray (gray_value (pix img x y))))"
    using weighted_grayscale_map [OF assms] sepia_tint_map [OF assms] by blast
  have white_gray: "weighted_grayscale white_pixel_image = Inr white_pixel_image"
    by code_simp
  have white_sepia: "sepia_tint white_pixel_image
      = Inr \<lparr>width = 1, height = 1, pixels = [(275, 255, 237)]\<rparr>"
    by code_simp
  from general white_gray white_sepia show ?thesis by blast
qed

theorem sepia_tint_spec_witness:
  "wf_image sample_image \<and> in_bounds sample_image 1 0 \<and> in_bounds sample_image 3 0
   \<and> in_bounds sample_image 3 2
   \<and> (\<exists>gray out. weighted_grayscale sample_image = Inr gray
         \<and> sepia_tint sample_image = Inr out
         \<and> get_color gray 1 0 = Inr (48, 48, 48) \<and> get_color out 1 0 = Inr (52, 48, 43)
         \<and> get_color gray 3 0 = Inr (108, 108, 108)
         \<and> get_color out 3 0 = Inr (124, 108, 91)
         \<and> get_color gray 3 2 = Inr (255, 255, 255)
         \<and> get_color out 3 2 = Inr (275, 255, 237))"
proof -
  have wf: "wf_image sample_image"
    by (simp add: wf_image_def sample_image_def)
  have inb: "in_bounds sample_image 1 0" "in_bounds sample_image 3 0"
    "in_bounds sample_image 3 2"
    by (simp_all add: in_bounds_def get_width_def get_height_def sample_image_def)
  have px: "pix sample_image 1 0 = (40, 50, 60)" "pix sample_image 3 0 = (100, 110, 120)"
    "pix sample_image 3 2 = (255, 255, 255)"
    by (simp_all add: pix_def offset_def get_width_def sample_image_def)
  have gv: "gray_value (40, 50, 60) = 48" "gray_value (100, 110, 120) = 108"
    "gray_value (255, 255, 255) = 255"
    by code_simp+
  have sg: "sepia_of_gray 48 = (52, 48, 43)" "sepia_of_gray 108 = (124, 108, 91)"
    "sepia_of_gray 255 = (275, 255, 237)"
    by code_simp+
  from sepia_tint_spec [OF wf] inb px gv sg
  have "\<exists>gray out. weighted_grayscale sample_image = Inr gray
         \<and> sepia_tint sample_image = Inr out
         \<and> get_color gray 1 0 = Inr (48, 48, 48) \<and> get_color out 1 0 = Inr (52, 48, 43)
         \<and> get_color gray 3 0 = Inr (108, 108, 108)
         \<and> get_color out 3 0 = Inr (124, 108, 91)
         \<and> get_color gray 3 2 = Inr (255, 255, 255)
         \<and> get_color out 3 2 = Inr (275, 255, 237)"
    by fastforce
  with wf inb show ?thesis by blast
qed

section \<open>Grids without interior pixels\<close>

text \<open>
  Claim C10. When the width is at most 2 or the height is at most 2 (0 included),
  \<^verbatim>\<open>range(1, dim - 1)\<close> is empty for that dimension, so \<^verbatim>\<open>detect_edges\<close>,
  \<^verbatim>\<open>detect_edges_better\<close>, \<^verbatim>\<open>blur_better\<close>, \<^verbatim>\<open>flip_vertical\<close> and
  \<^verbatim>\<open>flip_horizontal\<close> write nothing: each returns the copy of its input unchanged and
  raises no error.
\<close>

theorem small_grid_unchanged:
  assumes "get_width img \<le> 2 \<or> get_height img \<le> 2"
  shows "detect_edges img threshold = Inr img
    \<and> detect_edges_better img threshold = Inr img
    \<and> blur_better img = Inr img
    \<and> flip_vertical img = Inr img
    \<and> flip_horizontal img = Inr img"
proof (cases "get_height img \<le> 2")
  case True
  then have rows: "py_range 1 (get_height img - 1) = []"
    by (simp add: py_range_empty)
  show ?thesis
    by (simp add: detect_edges_def detect_edges_better_def blur_better_def
        flip_vertical_def flip_horizontal_def copy_def rows)
next
  case False
  with assms have "get_width img \<le> 2" by simp
  then have cols: "py_range 1 (get_width img - 1) = []"
    by (simp add: py_range_empty)
  show ?thesis
    by (simp add: detect_edges_def detect_edges_better_def blur_better_def
        flip_vertical_def flip_horizontal_def copy_def cols for_each_skip)
qed

theorem small_grid_unchanged_witness:
  "(get_width narrow_image \<le> 2 \<or> get_height narrow_image \<le> 2)
   \<and> detect_edges narrow_image 50 = Inr narrow_image
   \<and> detect_edges_better narrow_image 50 = Inr narrow_image
   \<and> blur_better narrow_image = Inr narrow_image
   \<and> flip_vertical narrow_image = Inr narrow_image
   \<and> flip_horizontal narrow_image = Inr narrow_image"
proof -
  have small: "get_width narrow_image \<le> 2 \<or> get_height narrow_image \<le> 2"
    by (simp add: get_width_def narrow_image_def)
  show ?thesis
    using small small_grid_unchanged [OF small, of 50] by simp
qed

end
